theory Spec2Isabelle
  imports Main "HOL-Library.Word"
begin

section \<open>Go values shared by the adapter\<close>

text \<open>
  The cloud datastore adapter of \<^verbatim>\<open>impl/cloud/datastore.go\<close>, embedded function by
  function. Go's \<^verbatim>\<open>int64\<close> is a 64-bit word, a \<^verbatim>\<open>float64\<close> is kept as its 64-bit
  pattern (the adapter never computes with it), a \<^verbatim>\<open>[]byte\<close> is a list of 8-bit words.
\<close>

type_synonym int64 = "64 word"
type_synonym float64 = "64 word"
type_synonym bytes = "8 word list"

text \<open>
  A \<^verbatim>\<open>time.Time\<close> is an instant together with the location it is presented in;
  \<^verbatim>\<open>t.UTC()\<close> keeps the instant and sets the location to UTC.
\<close>

datatype Location = UTC | Local | FixedZone string int

record Time =
  instant :: int
  location :: Location

definition Time_UTC :: "Time \<Rightarrow> Time" where
  "Time_UTC t = t\<lparr>location := UTC\<rparr>"

text \<open>
  A call either returns or panics (a nil pointer dereference, an index out of range).
  A panic unwinds every caller, so each caller passes it on.
\<close>

datatype 'a outcome = Returns 'a | Panics string

section \<open>Keys\<close>

text \<open>
  Modelled from the spec: \<^verbatim>\<open>ds.KeyTok\<close>, \<^verbatim>\<open>ds.Key\<close>, \<^verbatim>\<open>Key.Split\<close> and
  \<^verbatim>\<open>ds.NewKeyToks\<close> of the repository's \<^verbatim>\<open>service/datastore\<close> package are not among
  the sources. A key is an ordered sequence of tokens \<open>(kind, stringID, intID)\<close> from
  root to leaf, scoped by an application identifier and a namespace.
\<close>

record KeyTok =
  tokKind :: string
  tokIntID :: int64
  tokStringID :: string

record Key =
  keyAppID :: string
  keyNamespace :: string
  keyToks :: "KeyTok list"

definition NewKeyToks :: "string \<Rightarrow> string \<Rightarrow> KeyTok list \<Rightarrow> Key" where
  "NewKeyToks aid ns toks = \<lparr>keyAppID = aid, keyNamespace = ns, keyToks = toks\<rparr>"

text \<open>
  Modelled from the spec: a token is incomplete when it has neither a string nor an
  integer identifier; a key is complete when it has a leaf and every token has a kind
  and an identifier.
\<close>

definition tokIncomplete :: "KeyTok \<Rightarrow> bool" where
  "tokIncomplete t = (tokStringID t = [] \<and> tokIntID t = 0)"

definition tokComplete :: "KeyTok \<Rightarrow> bool" where
  "tokComplete t = (tokKind t \<noteq> [] \<and> \<not> tokIncomplete t)"

definition keyComplete :: "Key \<Rightarrow> bool" where
  "keyComplete k = (keyToks k \<noteq> [] \<and> list_all tokComplete (keyToks k))"

text \<open>
  Modelled from the spec: the backend's native key (\<^verbatim>\<open>*datastore.Key\<close> of the cloud
  client library) is a kind, an integer id, a name, a parent pointer and a namespace.
  A \<^verbatim>\<open>*datastore.Key\<close> is a \<open>NativeKey option\<close>, \<open>None\<close> being the nil pointer.
\<close>

datatype NativeKey =
  NativeKey (nkKind: string) (nkID: int64) (nkName: string)
    (nkParent: "NativeKey option") (nkNamespace: string)

definition nkIncomplete :: "NativeKey \<Rightarrow> bool" where
  "nkIncomplete k = (nkName k = [] \<and> nkID k = 0)"

text \<open>
  The bound datastore: the application id, the namespace bound into its context
  (empty when none is set) and the transaction handle, if any.
\<close>

type_synonym Transaction = nat

record boundDatastore =
  appID :: string
  ctxNamespace :: string
  transaction :: "Transaction option"

text \<open>
  Modelled from the spec: \<^verbatim>\<open>datastore.NewKey(ctx, kind, name, id, parent)\<close> of the
  client library allocates a native key under \<open>parent\<close> whose namespace is the one bound
  into the context.
\<close>

definition NewKey ::
  "boundDatastore \<Rightarrow> string \<Rightarrow> string \<Rightarrow> int64 \<Rightarrow> NativeKey option \<Rightarrow> NativeKey option" where
  "NewKey ctx kind name ident parent = Some (NativeKey kind ident name parent (ctxNamespace ctx))"

text \<open>\<^verbatim>\<open>gaeKeysToNative\<close>: the inner loop over the tokens, then the loop over the keys.\<close>

fun gaeToksToNative ::
  "boundDatastore \<Rightarrow> NativeKey option \<Rightarrow> KeyTok list \<Rightarrow> NativeKey option" where
  "gaeToksToNative bds nativeKey [] = nativeKey"
| "gaeToksToNative bds nativeKey (tok # toks) =
     gaeToksToNative bds
       (NewKey bds (tokKind tok) (tokStringID tok) (tokIntID tok) nativeKey) toks"

definition gaeKeyToNative :: "boundDatastore \<Rightarrow> Key \<Rightarrow> NativeKey option" where
  "gaeKeyToNative bds key = gaeToksToNative bds None (keyToks key)"

definition gaeKeysToNative :: "boundDatastore \<Rightarrow> Key list \<Rightarrow> NativeKey option list" where
  "gaeKeysToNative bds keys = map (gaeKeyToNative bds) keys"

text \<open>
  \<^verbatim>\<open>nativeKeysToGAE\<close>: the walk from the leaf up the parent chain appends one token per
  native key; the index loop then reverses the collected tokens in place. The token
  buffer is reused from one key to the next; \<^verbatim>\<open>NewKeyToks\<close> is taken to copy the
  tokens it is given, so each key of the result has its own. A nil native key panics at
  the first read of its kind.
\<close>

fun collectToks :: "KeyTok list \<Rightarrow> NativeKey \<Rightarrow> KeyTok list" where
  "collectToks toks (NativeKey kind ident name parent ns) =
     (let toks' = toks @ [\<lparr>tokKind = kind, tokIntID = ident, tokStringID = name\<rparr>]
      in case parent of None \<Rightarrow> toks' | Some cur \<Rightarrow> collectToks toks' cur)"

function reverseToks :: "nat \<Rightarrow> 'a list \<Rightarrow> 'a list" where
  "reverseToks i toks =
     (if i < length toks div 2
      then (let ri = length toks - i - 1
            in reverseToks (i + 1) (toks[i := toks ! ri, ri := toks ! i]))
      else toks)"
  by pat_completeness auto
termination
  by (relation "measure (\<lambda>(i, toks). length toks div 2 - i)") auto

declare reverseToks.simps [simp del]

definition nativeKeyToGAE :: "boundDatastore \<Rightarrow> NativeKey option \<Rightarrow> Key outcome" where
  "nativeKeyToGAE bds nativeKey =
     (case nativeKey of
        None \<Rightarrow> Panics ''nil pointer dereference''
      | Some nk \<Rightarrow>
          Returns (NewKeyToks (appID bds) (nkNamespace nk) (reverseToks 0 (collectToks [] nk))))"

fun nativeKeysToGAE :: "boundDatastore \<Rightarrow> NativeKey option list \<Rightarrow> Key list outcome" where
  "nativeKeysToGAE bds [] = Returns []"
| "nativeKeysToGAE bds (nativeKey # nativeKeys) =
     (case nativeKeyToGAE bds nativeKey of
        Panics msg \<Rightarrow> Panics msg
      | Returns key \<Rightarrow>
          (case nativeKeysToGAE bds nativeKeys of
             Panics msg \<Rightarrow> Panics msg
           | Returns keys \<Rightarrow> Returns (key # keys)))"

section \<open>Errors\<close>

text \<open>
  Go's \<^verbatim>\<open>error\<close> values that the adapter tells apart: the sentinels of the client
  library (\<open>Native...\<close>), the sentinels of the abstract interface, the errors the
  adapter creates itself, the aggregate errors and every other error, kept by its text.
  A Go \<^verbatim>\<open>error\<close> is an \<open>error option\<close>, \<open>None\<close> being nil.
\<close>

datatype PropertyType =
  PTNull | PTInt | PTFloat | PTBool | PTString | PTBytes | PTTime | PTGeoPoint | PTKey
  | PTBlobKey | PTUnknown

datatype error =
    NativeErrNoSuchEntity | NativeErrConcurrentTransaction | NativeErrInvalidKey | NativeDone
  | ErrNoSuchEntity | ErrConcurrentTransaction | ErrInvalidKey | Stop
  | ErrorsNew string
  | UnsupportedPropertyType nat PropertyType
  | UnsupportedValueType nat string
  | NativeMultiError "error option list"
  | MultiError "error option list"
  | OtherError string

fun normalizeError :: "error option \<Rightarrow> error option" where
  "normalizeError (Some NativeErrNoSuchEntity) = Some ErrNoSuchEntity"
| "normalizeError (Some NativeErrConcurrentTransaction) = Some ErrConcurrentTransaction"
| "normalizeError (Some NativeErrInvalidKey) = Some ErrInvalidKey"
| "normalizeError err = err"

section \<open>Properties\<close>

text \<open>
  A Go \<^verbatim>\<open>interface{}\<close> value, as far as the property codec inspects it: nil, the
  primitive types, the abstract key pointer, the native key pointer, a
  \<^verbatim>\<open>[]interface{}\<close>, a slice whose element type is another interface type (such as
  \<^verbatim>\<open>[]error\<close>), kept by the name of its type, and any other type, kept by its name.
\<close>

datatype GoValue =
    GoNil | GoInt64 int64 | GoBool bool | GoString string | GoFloat64 float64
  | GoBytes bytes | GoTime Time | GoGeoPoint float64 float64 | GoBlobKey string
  | GoKey Key | GoNativeKey "NativeKey option" | GoSlice "GoValue list"
  | GoInterfaceSlice string | GoOther string

fun goTypeName :: "GoValue \<Rightarrow> string" where
  "goTypeName GoNil = ''<nil>''"
| "goTypeName (GoInt64 _) = ''int64''"
| "goTypeName (GoBool _) = ''bool''"
| "goTypeName (GoString _) = ''string''"
| "goTypeName (GoFloat64 _) = ''float64''"
| "goTypeName (GoBytes _) = ''[]uint8''"
| "goTypeName (GoTime _) = ''time.Time''"
| "goTypeName (GoGeoPoint _ _) = ''datastore.GeoPoint''"
| "goTypeName (GoBlobKey _) = ''blobstore.Key''"
| "goTypeName (GoKey _) = ''*datastore.Key''"
| "goTypeName (GoNativeKey _) = ''*datastore.Key''"
| "goTypeName (GoSlice _) = ''[]interface {}''"
| "goTypeName (GoInterfaceSlice name) = name"
| "goTypeName (GoOther name) = name"

text \<open>
  Modelled from the spec: \<^verbatim>\<open>ds.Property\<close> with \<^verbatim>\<open>Type\<close>, \<^verbatim>\<open>Value\<close>,
  \<^verbatim>\<open>IndexSetting\<close> and \<^verbatim>\<open>SetValue\<close> is not among the sources. A property is a
  tagged value of exactly one of null, boolean, signed 64-bit integer, 64-bit float,
  string, byte string, timestamp, geographic point, key and blob-store reference,
  paired with an index-setting flag.
\<close>

datatype IndexSetting = ShouldIndex | NoIndex

datatype PropertyData =
    PVNull | PVInt int64 | PVFloat float64 | PVBool bool | PVString string | PVBytes bytes
  | PVTime Time | PVGeoPoint float64 float64 | PVKey Key | PVBlobKey string

record Property =
  propData :: PropertyData
  indexSetting :: IndexSetting

fun dataType :: "PropertyData \<Rightarrow> PropertyType" where
  "dataType PVNull = PTNull"
| "dataType (PVInt _) = PTInt"
| "dataType (PVFloat _) = PTFloat"
| "dataType (PVBool _) = PTBool"
| "dataType (PVString _) = PTString"
| "dataType (PVBytes _) = PTBytes"
| "dataType (PVTime _) = PTTime"
| "dataType (PVGeoPoint _ _) = PTGeoPoint"
| "dataType (PVKey _) = PTKey"
| "dataType (PVBlobKey _) = PTBlobKey"

fun dataValue :: "PropertyData \<Rightarrow> GoValue" where
  "dataValue PVNull = GoNil"
| "dataValue (PVInt i) = GoInt64 i"
| "dataValue (PVFloat f) = GoFloat64 f"
| "dataValue (PVBool b) = GoBool b"
| "dataValue (PVString s) = GoString s"
| "dataValue (PVBytes b) = GoBytes b"
| "dataValue (PVTime t) = GoTime t"
| "dataValue (PVGeoPoint lat lng) = GoGeoPoint lat lng"
| "dataValue (PVKey k) = GoKey k"
| "dataValue (PVBlobKey k) = GoBlobKey k"

definition Property_Type :: "Property \<Rightarrow> PropertyType" where
  "Property_Type p = dataType (propData p)"

definition Property_Value :: "Property \<Rightarrow> GoValue" where
  "Property_Value p = dataValue (propData p)"

text \<open>
  Modelled from the spec: \<^verbatim>\<open>SetValue\<close> tags the Go value and stores it with the
  index setting; a value of no property type leaves the property as it was (the
  adapter drops the error \<^verbatim>\<open>SetValue\<close> returns).
\<close>

fun dataOfValue :: "GoValue \<Rightarrow> PropertyData option" where
  "dataOfValue GoNil = Some PVNull"
| "dataOfValue (GoInt64 i) = Some (PVInt i)"
| "dataOfValue (GoFloat64 f) = Some (PVFloat f)"
| "dataOfValue (GoBool b) = Some (PVBool b)"
| "dataOfValue (GoString s) = Some (PVString s)"
| "dataOfValue (GoBytes b) = Some (PVBytes b)"
| "dataOfValue (GoTime t) = Some (PVTime t)"
| "dataOfValue (GoGeoPoint lat lng) = Some (PVGeoPoint lat lng)"
| "dataOfValue (GoKey k) = Some (PVKey k)"
| "dataOfValue (GoBlobKey k) = Some (PVBlobKey k)"
| "dataOfValue _ = None"

definition Property_SetValue :: "GoValue \<Rightarrow> IndexSetting \<Rightarrow> Property \<Rightarrow> Property" where
  "Property_SetValue v is p =
     (case dataOfValue v of
        None \<Rightarrow> p
      | Some d \<Rightarrow> \<lparr>propData = d, indexSetting = is\<rparr>)"

text \<open>The zero \<^verbatim>\<open>ds.Property\<close> that \<^verbatim>\<open>make\<close> fills a fresh slice with.\<close>

definition zeroProperty :: Property where
  "zeroProperty = \<lparr>propData = PVNull, indexSetting = ShouldIndex\<rparr>"

text \<open>The native property of the client library: a name, a value and the no-index flag.\<close>

record NativeProperty =
  npName :: string
  npValue :: GoValue
  npNoIndex :: bool

text \<open>
  \<^verbatim>\<open>gaePropertyToNative\<close>. The type switch on one property, then the loop with its
  index, then the choice between a scalar and a list value.
\<close>

definition gaeValueToNative :: "boundDatastore \<Rightarrow> nat \<Rightarrow> Property \<Rightarrow> error + GoValue" where
  "gaeValueToNative bds i prop =
     (let pt = Property_Type prop in
      if pt \<in> {PTNull, PTInt, PTTime, PTBool, PTBytes, PTString, PTFloat}
      then Inr (Property_Value prop)
      else (case propData prop of
              PVKey key \<Rightarrow> Inr (GoNativeKey (gaeKeyToNative bds key))
            | _ \<Rightarrow> Inl (UnsupportedPropertyType i pt)))"

fun gaeValuesToNative ::
  "boundDatastore \<Rightarrow> nat \<Rightarrow> Property list \<Rightarrow> error + GoValue list" where
  "gaeValuesToNative bds i [] = Inr []"
| "gaeValuesToNative bds i (prop # props) =
     (case gaeValueToNative bds i prop of
        Inl err \<Rightarrow> Inl err
      | Inr v \<Rightarrow>
          (case gaeValuesToNative bds (i + 1) props of
             Inl err \<Rightarrow> Inl err
           | Inr vs \<Rightarrow> Inr (v # vs)))"

definition gaePropertyToNative ::
  "boundDatastore \<Rightarrow> string \<Rightarrow> Property list \<Rightarrow> error + NativeProperty" where
  "gaePropertyToNative bds name props =
     (case gaeValuesToNative bds 0 props of
        Inl err \<Rightarrow> Inl err
      | Inr nativeValues \<Rightarrow>
          if length nativeValues = 1
          then Inr \<lparr>npName = name, npValue = nativeValues ! 0,
                    npNoIndex = (indexSetting (props ! 0) \<noteq> ShouldIndex)\<rparr>
          else Inr \<lparr>npName = name, npValue = GoSlice nativeValues, npNoIndex = False\<rparr>)"

text \<open>
  \<^verbatim>\<open>nativePropertyToGAE\<close>. A slice whose element type is an interface is asserted to be
  a \<^verbatim>\<open>[]interface{}\<close> and taken apart; the assertion is unchecked, so a slice of another
  interface type panics. Any other value is wrapped. Each element goes through the type
  switch and is stored with the index setting of the whole native property. On an error
  the slice built so far is returned with it; the callers drop it, so the model returns
  the error alone.
\<close>

definition nativeValuesOf :: "GoValue \<Rightarrow> GoValue list outcome" where
  "nativeValuesOf v =
     (case v of
        GoSlice vs \<Rightarrow> Returns vs
      | GoInterfaceSlice _ \<Rightarrow> Panics ''interface conversion''
      | _ \<Rightarrow> Returns [v])"

fun nativeValueToGAE :: "boundDatastore \<Rightarrow> nat \<Rightarrow> GoValue \<Rightarrow> (error + GoValue) outcome" where
  "nativeValueToGAE bds i (GoInt64 v) = Returns (Inr (GoInt64 v))"
| "nativeValueToGAE bds i (GoBool v) = Returns (Inr (GoBool v))"
| "nativeValueToGAE bds i (GoString v) = Returns (Inr (GoString v))"
| "nativeValueToGAE bds i (GoFloat64 v) = Returns (Inr (GoFloat64 v))"
| "nativeValueToGAE bds i (GoBytes v) = Returns (Inr (GoBytes v))"
| "nativeValueToGAE bds i (GoTime nvt) = Returns (Inr (GoTime (Time_UTC nvt)))"
| "nativeValueToGAE bds i (GoNativeKey nvt) =
     (case nativeKeyToGAE bds nvt of
        Panics msg \<Rightarrow> Panics msg
      | Returns key \<Rightarrow> Returns (Inr (GoKey key)))"
| "nativeValueToGAE bds i nv = Returns (Inl (UnsupportedValueType i (goTypeName nv)))"

fun nativeValuesToGAE ::
  "boundDatastore \<Rightarrow> bool \<Rightarrow> nat \<Rightarrow> GoValue list \<Rightarrow> (error + Property list) outcome" where
  "nativeValuesToGAE bds noIndex i [] = Returns (Inr [])"
| "nativeValuesToGAE bds noIndex i (nv # nvs) =
     (case nativeValueToGAE bds i nv of
        Panics msg \<Rightarrow> Panics msg
      | Returns (Inl err) \<Rightarrow> Returns (Inl err)
      | Returns (Inr nv') \<Rightarrow>
          (let indexSetting = (if noIndex then NoIndex else ShouldIndex);
               prop = Property_SetValue nv' indexSetting zeroProperty
           in case nativeValuesToGAE bds noIndex (i + 1) nvs of
                Panics msg \<Rightarrow> Panics msg
              | Returns (Inl err) \<Rightarrow> Returns (Inl err)
              | Returns (Inr props) \<Rightarrow> Returns (Inr (prop # props))))"

definition nativePropertyToGAE ::
  "boundDatastore \<Rightarrow> NativeProperty \<Rightarrow> (error + string \<times> Property list) outcome" where
  "nativePropertyToGAE bds nativeProp =
     (let name = npName nativeProp in
      case nativeValuesOf (npValue nativeProp) of
        Panics msg \<Rightarrow> Panics msg
      | Returns nativeValues \<Rightarrow>
          if length nativeValues = 0 then Returns (Inr (name, []))
          else (case nativeValuesToGAE bds (npNoIndex nativeProp) 0 nativeValues of
                  Panics msg \<Rightarrow> Panics msg
                | Returns (Inl err) \<Rightarrow> Returns (Inl err)
                | Returns (Inr props) \<Rightarrow> Returns (Inr (name, props))))"

section \<open>The property load-saver\<close>

text \<open>
  A \<^verbatim>\<open>ds.PropertyMap\<close> is a Go map from a property name to its values; \<open>None\<close> is the
  nil map. The entries are kept as a list with one entry per name: the order of the
  list is the order in which a \<^verbatim>\<open>range\<close> over the map happens to visit them.
\<close>

type_synonym PropertyMap = "(string \<times> Property list) list option"

record nativePropertyLoadSaver =
  nplsBds :: boundDatastore
  pmap :: PropertyMap

definition clonePropertyMap :: "PropertyMap \<Rightarrow> PropertyMap" where
  "clonePropertyMap pm =
     (case pm of
        None \<Rightarrow> None
      | Some entries \<Rightarrow> Some (map (\<lambda>(k, props). (k, [] @ props)) entries))"

definition mkNPLS :: "boundDatastore \<Rightarrow> PropertyMap \<Rightarrow> nativePropertyLoadSaver" where
  "mkNPLS bds base = \<lparr>nplsBds = bds, pmap = clonePropertyMap base\<rparr>"

definition pmapLen :: "PropertyMap \<Rightarrow> nat" where
  "pmapLen pm = (case pm of None \<Rightarrow> 0 | Some entries \<Rightarrow> length entries)"

text \<open>\<^verbatim>\<open>pmap[name] = append(pmap[name], props...)\<close> on the entries of a map.\<close>

definition pmapAppend ::
  "string \<Rightarrow> Property list \<Rightarrow> (string \<times> Property list) list \<Rightarrow> (string \<times> Property list) list" where
  "pmapAppend name props entries =
     (case map_of entries name of
        None \<Rightarrow> entries @ [(name, props)]
      | Some _ \<Rightarrow> map (\<lambda>(k, old). if k = name then (k, old @ props) else (k, old)) entries)"

text \<open>\<^verbatim>\<open>strings.HasPrefix\<close>.\<close>

definition HasPrefix :: "string \<Rightarrow> string \<Rightarrow> bool" where
  "HasPrefix s pre = (length pre \<le> length s \<and> take (length pre) s = pre)"

text \<open>
  \<^verbatim>\<open>Load\<close>: a nil map is allocated first, then every native property is decoded and
  appended under its name. The error is returned with the map as far as it was filled.
\<close>

fun loadProps ::
  "boundDatastore \<Rightarrow> (string \<times> Property list) list \<Rightarrow> NativeProperty list \<Rightarrow>
   (error option \<times> (string \<times> Property list) list) outcome" where
  "loadProps bds entries [] = Returns (None, entries)"
| "loadProps bds entries (nativeProp # props) =
     (case nativePropertyToGAE bds nativeProp of
        Panics msg \<Rightarrow> Panics msg
      | Returns (Inl err) \<Rightarrow> Returns (Some err, entries)
      | Returns (Inr (name, ps)) \<Rightarrow> loadProps bds (pmapAppend name ps entries) props)"

definition Load ::
  "nativePropertyLoadSaver \<Rightarrow> NativeProperty list \<Rightarrow>
   (error option \<times> nativePropertyLoadSaver) outcome" where
  "Load npls props =
     (let entries = (case pmap npls of None \<Rightarrow> [] | Some es \<Rightarrow> es) in
      case loadProps (nplsBds npls) entries props of
        Panics msg \<Rightarrow> Panics msg
      | Returns (err, entries') \<Rightarrow> Returns (err, npls\<lparr>pmap := Some entries'\<rparr>))"

text \<open>
  \<^verbatim>\<open>Save\<close>: nothing for a map without entries; otherwise every entry whose name does not
  start with \<^verbatim>\<open>$\<close> is encoded and appended, and the first encoding error ends the call.
\<close>

fun saveProps ::
  "boundDatastore \<Rightarrow> NativeProperty list \<Rightarrow> (string \<times> Property list) list \<Rightarrow>
   error + NativeProperty list" where
  "saveProps bds props [] = Inr props"
| "saveProps bds props ((name, plist) # entries) =
     (if HasPrefix name ''$'' then saveProps bds props entries
      else (case gaePropertyToNative bds name plist of
              Inl err \<Rightarrow> Inl err
            | Inr nativeProp \<Rightarrow> saveProps bds (props @ [nativeProp]) entries))"

definition Save :: "nativePropertyLoadSaver \<Rightarrow> error + NativeProperty list" where
  "Save npls =
     (if pmapLen (pmap npls) = 0 then Inr []
      else saveProps (nplsBds npls) [] (case pmap npls of None \<Rightarrow> [] | Some es \<Rightarrow> es))"

section \<open>The backend client\<close>

text \<open>
  The client library and the remote backend behind it are not part of the repository.
  They are a parameter of the model: a record of the calls the adapter makes, each a
  function on the state \<open>'w\<close> of the world outside the adapter. A callback handed to the
  adapter is a function on the same state.
  \<^item> \<open>clientRunInTransaction f\<close> is one attempt: it opens a transaction, runs \<open>f\<close> with
    the handle and commits.
  \<^item> \<open>clientAllocateIDs\<close> and the \<open>client...Multi\<close> and \<open>tx...Multi\<close> fields are the
    batch calls, outside and inside a transaction.
  \<^item> \<open>clientRun\<close> hands out the iterator of a query.
\<close>

text \<open>
  An iterator is the finite sequence of entities it still has to hand out (the native
  key and the native properties of each) and the error its \<^verbatim>\<open>Next\<close> reports after the
  last one: \<^verbatim>\<open>datastore.Done\<close> at the end of the results, or a failure.
\<close>

record Iterator =
  itEntities :: "(NativeKey option \<times> NativeProperty list) list"
  itFinal :: error

datatype Cursor = NativeCursor string | ForeignCursor string

record NativeQuery =
  nqKind :: string
  nqTransaction :: "Transaction option"
  nqFilters :: "(string \<times> GoValue) list"
  nqStart :: "string option"
  nqEnd :: "string option"
  nqDistinct :: bool
  nqKeysOnly :: bool
  nqLimit :: "int option"
  nqOffset :: "int option"
  nqProjection :: "string list"
  nqAncestor :: "NativeKey option"
  nqEventual :: bool
  nqOrder :: "string list"

record 'w Client =
  clientRunInTransaction ::
    "(Transaction \<Rightarrow> 'w \<Rightarrow> error option \<times> 'w) \<Rightarrow> 'w \<Rightarrow> error option \<times> 'w"
  clientAllocateIDs ::
    "NativeKey option list \<Rightarrow> 'w \<Rightarrow> (NativeKey option list \<times> error option) \<times> 'w"
  clientPutMulti ::
    "NativeKey option list \<Rightarrow> nativePropertyLoadSaver list \<Rightarrow> 'w \<Rightarrow>
     (NativeKey option list \<times> error option) \<times> 'w"
  txPutMulti ::
    "Transaction \<Rightarrow> NativeKey option list \<Rightarrow> nativePropertyLoadSaver list \<Rightarrow> 'w \<Rightarrow>
     error option \<times> 'w"
  clientGetMulti ::
    "NativeKey option list \<Rightarrow> nativePropertyLoadSaver list \<Rightarrow> 'w \<Rightarrow>
     (nativePropertyLoadSaver list \<times> error option) \<times> 'w"
  txGetMulti ::
    "Transaction \<Rightarrow> NativeKey option list \<Rightarrow> nativePropertyLoadSaver list \<Rightarrow> 'w \<Rightarrow>
     (nativePropertyLoadSaver list \<times> error option) \<times> 'w"
  clientDeleteMulti :: "NativeKey option list \<Rightarrow> 'w \<Rightarrow> error option \<times> 'w"
  txDeleteMulti :: "Transaction \<Rightarrow> NativeKey option list \<Rightarrow> 'w \<Rightarrow> error option \<times> 'w"
  clientRun :: "NativeQuery \<Rightarrow> 'w \<Rightarrow> Iterator"

section \<open>Transactions\<close>

record TransactionOptions =
  XG :: bool
  Attempts :: int

text \<open>
  \<^verbatim>\<open>withDatastoreTransaction\<close> binds the handle into the context the transactional
  function runs in; the scope made from that context has the handle as its transaction.
\<close>

definition withDatastoreTransaction :: "boundDatastore \<Rightarrow> Transaction \<Rightarrow> boundDatastore" where
  "withDatastoreTransaction c tx = c\<lparr>transaction := Some tx\<rparr>"

text \<open>The retry loop of \<^verbatim>\<open>RunInTransaction\<close>, from attempt \<open>i\<close> on.\<close>

function runAttempts ::
  "'w Client \<Rightarrow> boundDatastore \<Rightarrow> (boundDatastore \<Rightarrow> 'w \<Rightarrow> error option \<times> 'w) \<Rightarrow>
   int \<Rightarrow> int \<Rightarrow> 'w \<Rightarrow> error option \<times> 'w" where
  "runAttempts client bds fn attempts i w =
     (if i < attempts
      then (case clientRunInTransaction client
                   (\<lambda>tx. fn (withDatastoreTransaction bds tx)) w of
              (err, w') \<Rightarrow>
                (let err = normalizeError err in
                 if err \<noteq> Some ErrConcurrentTransaction then (err, w')
                 else runAttempts client bds fn attempts (i + 1) w'))
      else (Some ErrConcurrentTransaction, w))"
  by pat_completeness auto
termination
  by (relation "measure (\<lambda>(client, bds, fn, attempts, i, w). nat (attempts - i))") auto

declare runAttempts.simps [simp del]

definition RunInTransaction ::
  "'w Client \<Rightarrow> boundDatastore \<Rightarrow> (boundDatastore \<Rightarrow> 'w \<Rightarrow> error option \<times> 'w) \<Rightarrow>
   TransactionOptions option \<Rightarrow> 'w \<Rightarrow> error option \<times> 'w" where
  "RunInTransaction client bds fn opts w =
     (if transaction bds \<noteq> None
      then (Some (ErrorsNew ''nested transactions are not supported''), w)
      else if (case opts of None \<Rightarrow> False | Some opt \<Rightarrow> XG opt)
      then (Some (ErrorsNew ''cross-group transactions are not supported''), w)
      else (let attempts =
                  (case opts of
                     None \<Rightarrow> 3
                   | Some opt \<Rightarrow> if Attempts opt > 0 then Attempts opt else 3)
            in runAttempts client bds fn attempts 0 w))"

section \<open>Batch operations\<close>

text \<open>
  Modelled from the spec: \<^verbatim>\<open>errors.Fix\<close> of the \<^verbatim>\<open>luci-go\<close> library is not among the
  sources. It turns the aggregate error of the client library, an error per index, into
  the \<^verbatim>\<open>errors.MultiError\<close> the adapter looks for and leaves every other error alone.
\<close>

fun errors_Fix :: "error option \<Rightarrow> error option" where
  "errors_Fix (Some (NativeMultiError me)) = Some (MultiError me)"
| "errors_Fix err = err"

text \<open>
  \<^verbatim>\<open>idxCallbacker\<close>. A callback takes the index and the error of one item, acts on the
  world and returns an error or nil, or panics. The first loop runs when the batch call
  succeeded, the second over the entries of an aggregate error.
\<close>

type_synonym 'w idxCallback = "nat \<Rightarrow> error option \<Rightarrow> 'w \<Rightarrow> error option outcome \<times> 'w"

function idxLoopNil :: "'w idxCallback \<Rightarrow> nat \<Rightarrow> nat \<Rightarrow> 'w \<Rightarrow> error option outcome \<times> 'w" where
  "idxLoopNil cb amt i w =
     (if i < amt
      then (case cb i None w of
              (Panics msg, w') \<Rightarrow> (Panics msg, w')
            | (Returns (Some err), w') \<Rightarrow> (Returns (Some err), w')
            | (Returns None, w') \<Rightarrow> idxLoopNil cb amt (i + 1) w')
      else (Returns None, w))"
  by pat_completeness auto
termination
  by (relation "measure (\<lambda>(cb, amt, i, w). amt - i)") auto

declare idxLoopNil.simps [simp del]

fun idxLoopMulti ::
  "'w idxCallback \<Rightarrow> nat \<Rightarrow> error option list \<Rightarrow> 'w \<Rightarrow> error option outcome \<times> 'w" where
  "idxLoopMulti cb i [] w = (Returns None, w)"
| "idxLoopMulti cb i (err # me) w =
     (case cb i (normalizeError err) w of
        (Panics msg, w') \<Rightarrow> (Panics msg, w')
      | (Returns (Some err'), w') \<Rightarrow> (Returns (Some err'), w')
      | (Returns None, w') \<Rightarrow> idxLoopMulti cb (i + 1) me w')"

definition idxCallbacker ::
  "error option \<Rightarrow> nat \<Rightarrow> 'w idxCallback \<Rightarrow> 'w \<Rightarrow> error option outcome \<times> 'w" where
  "idxCallbacker err amt cb w =
     (if err = None then idxLoopNil cb amt 0 w
      else (case errors_Fix err of
              Some (MultiError me) \<Rightarrow> idxLoopMulti cb 0 me w
            | err' \<Rightarrow> (Returns (normalizeError err'), w)))"

text \<open>
  \<^verbatim>\<open>DeleteMulti\<close>, \<^verbatim>\<open>GetMulti\<close> and \<^verbatim>\<open>PutMulti\<close>. The batch call of the client fills
  the load-savers it is given (\<^verbatim>\<open>GetMulti\<close>) or returns the keys it wrote
  (\<^verbatim>\<open>PutMulti\<close>); the adapter then reports every index through the callback.
\<close>

definition DeleteMulti ::
  "'w Client \<Rightarrow> boundDatastore \<Rightarrow> Key list \<Rightarrow> (error option \<Rightarrow> 'w \<Rightarrow> error option outcome \<times> 'w) \<Rightarrow>
   'w \<Rightarrow> error option outcome \<times> 'w" where
  "DeleteMulti client bds keys cb w =
     (let nativeKeys = gaeKeysToNative bds keys in
      case (case transaction bds of
              Some tx \<Rightarrow> txDeleteMulti client tx nativeKeys w
            | None \<Rightarrow> clientDeleteMulti client nativeKeys w) of
        (err, w') \<Rightarrow> idxCallbacker err (length nativeKeys) (\<lambda>_ err. cb err) w')"

type_synonym 'w getCallback =
  "PropertyMap \<Rightarrow> error option \<Rightarrow> 'w \<Rightarrow> error option outcome \<times> 'w"

definition GetMulti ::
  "'w Client \<Rightarrow> boundDatastore \<Rightarrow> Key list \<Rightarrow> 'w getCallback \<Rightarrow> 'w \<Rightarrow>
   error option outcome \<times> 'w" where
  "GetMulti client bds keys cb w =
     (let nativeKeys = gaeKeysToNative bds keys;
          nativePLS = map (\<lambda>_. mkNPLS bds None) nativeKeys
      in case (case transaction bds of
                 Some tx \<Rightarrow> txGetMulti client tx nativeKeys nativePLS w
               | None \<Rightarrow> clientGetMulti client nativeKeys nativePLS w) of
           ((nativePLS', err), w') \<Rightarrow>
             idxCallbacker err (length nativePLS)
               (\<lambda>idx err w.
                  if idx < length nativePLS' then cb (pmap (nativePLS' ! idx)) err w
                  else (Panics ''index out of range'', w)) w')"

text \<open>The loop of the transactional \<^verbatim>\<open>PutMulti\<close> that picks the incomplete keys.\<close>

fun findIncomplete ::
  "nat \<Rightarrow> NativeKey option list \<Rightarrow> NativeKey option list \<Rightarrow> (nat \<rightharpoonup> nat) \<Rightarrow>
   (NativeKey option list \<times> (nat \<rightharpoonup> nat)) outcome" where
  "findIncomplete i [] incompleteKeys incompleteKeyMap =
     Returns (incompleteKeys, incompleteKeyMap)"
| "findIncomplete i (k # ks) incompleteKeys incompleteKeyMap =
     (case k of
        None \<Rightarrow> Panics ''nil pointer dereference''
      | Some nk \<Rightarrow>
          if nkIncomplete nk
          then findIncomplete (i + 1) ks (incompleteKeys @ [k])
                 (incompleteKeyMap(length incompleteKeys \<mapsto> i))
          else findIncomplete (i + 1) ks incompleteKeys incompleteKeyMap)"

text \<open>
  The loop that writes the allocated keys back. A Go map yields 0 for an index it does
  not hold.
\<close>

fun substituteIDs ::
  "nat \<Rightarrow> NativeKey option list \<Rightarrow> (nat \<rightharpoonup> nat) \<Rightarrow> NativeKey option list \<Rightarrow>
   NativeKey option list" where
  "substituteIDs i [] incompleteKeyMap nativeKeys = nativeKeys"
| "substituteIDs i (idKey # idKeys) incompleteKeyMap nativeKeys =
     substituteIDs (i + 1) idKeys incompleteKeyMap
       (nativeKeys[(case incompleteKeyMap i of None \<Rightarrow> 0 | Some j \<Rightarrow> j) := idKey])"

type_synonym 'w newKeyCallback =
  "Key option \<Rightarrow> error option \<Rightarrow> 'w \<Rightarrow> error option outcome \<times> 'w"

definition putCallback ::
  "boundDatastore \<Rightarrow> 'w newKeyCallback \<Rightarrow> NativeKey option list \<Rightarrow> 'w idxCallback" where
  "putCallback bds cb nativeKeys idx err w =
     (if err = None
      then (if idx < length nativeKeys
            then (case nativeKeyToGAE bds (nativeKeys ! idx) of
                    Panics msg \<Rightarrow> (Panics msg, w)
                  | Returns key \<Rightarrow> cb (Some key) None w)
            else (Panics ''index out of range'', w))
      else cb None err w)"

definition PutMulti ::
  "'w Client \<Rightarrow> boundDatastore \<Rightarrow> Key list \<Rightarrow> PropertyMap list \<Rightarrow> 'w newKeyCallback \<Rightarrow>
   'w \<Rightarrow> error option outcome \<times> 'w" where
  "PutMulti client bds keys vals cb w =
     (let nativeKeys = gaeKeysToNative bds keys;
          nativePLS = map (mkNPLS bds) vals
      in case transaction bds of
           Some tx \<Rightarrow>
             (case findIncomplete 0 nativeKeys [] Map.empty of
                Panics msg \<Rightarrow> (Panics msg, w)
              | Returns (incompleteKeys, incompleteKeyMap) \<Rightarrow>
                  (case (if length incompleteKeys > 0
                         then (case clientAllocateIDs client incompleteKeys w of
                                 ((idKeys, err), w1) \<Rightarrow>
                                   if err \<noteq> None then Inl (err, w1)
                                   else Inr (substituteIDs 0 idKeys incompleteKeyMap nativeKeys, w1))
                         else Inr (nativeKeys, w)) of
                     Inl (err, w1) \<Rightarrow> (Returns err, w1)
                   | Inr (nativeKeys', w1) \<Rightarrow>
                       (case txPutMulti client tx nativeKeys' nativePLS w1 of
                          (err, w2) \<Rightarrow>
                            idxCallbacker err (length nativeKeys')
                              (putCallback bds cb nativeKeys') w2)))
         | None \<Rightarrow>
             (case clientPutMulti client nativeKeys nativePLS w of
                ((nativeKeys', err), w1) \<Rightarrow>
                  idxCallbacker err (length nativeKeys') (putCallback bds cb nativeKeys') w1))"

section \<open>Queries\<close>

text \<open>
  Modelled from the spec: \<^verbatim>\<open>ds.FinalizedQuery\<close> is not among the sources. A query
  descriptor holds the kind, the equality filters, one inequality-filtered field with a
  low and a high bound, the cursor bounds, the flags, an optional limit and offset, the
  projection, the ancestor and the orders. A cursor of the client library is told from
  a cursor of any other implementation.
\<close>

record IndexColumn =
  icProperty :: string
  icDescending :: bool

record FinalizedQuery =
  fqKind :: string
  fqEqFilters :: "(string \<times> Property list) list"
  fqIneqFilterProp :: string
  fqIneqFilterLow :: "string \<times> string \<times> Property"
  fqIneqFilterHigh :: "string \<times> string \<times> Property"
  fqBounds :: "Cursor option \<times> Cursor option"
  fqDistinct :: bool
  fqKeysOnly :: bool
  fqLimit :: "int option"
  fqOffset :: "int option"
  fqProject :: "string list option"
  fqAncestor :: "Key option"
  fqEventuallyConsistent :: bool
  fqOrders :: "IndexColumn list"

text \<open>
  Modelled from the spec: \<^verbatim>\<open>datastore.NewQuery\<close> and the builder methods of
  \<^verbatim>\<open>datastore.Query\<close> in the client library; each sets its part of the native query.
\<close>

definition NewQuery :: "string \<Rightarrow> NativeQuery" where
  "NewQuery kind =
     \<lparr>nqKind = kind, nqTransaction = None, nqFilters = [], nqStart = None, nqEnd = None,
      nqDistinct = False, nqKeysOnly = False, nqLimit = None, nqOffset = None,
      nqProjection = [], nqAncestor = None, nqEventual = False, nqOrder = []\<rparr>"

definition Query_Transaction :: "Transaction \<Rightarrow> NativeQuery \<Rightarrow> NativeQuery" where
  "Query_Transaction tx nq = nq\<lparr>nqTransaction := Some tx\<rparr>"

definition Query_Filter :: "string \<Rightarrow> GoValue \<Rightarrow> NativeQuery \<Rightarrow> NativeQuery" where
  "Query_Filter filterStr v nq = nq\<lparr>nqFilters := nqFilters nq @ [(filterStr, v)]\<rparr>"

definition Query_Start :: "string \<Rightarrow> NativeQuery \<Rightarrow> NativeQuery" where
  "Query_Start c nq = nq\<lparr>nqStart := Some c\<rparr>"

definition Query_End :: "string \<Rightarrow> NativeQuery \<Rightarrow> NativeQuery" where
  "Query_End c nq = nq\<lparr>nqEnd := Some c\<rparr>"

definition Query_Distinct :: "NativeQuery \<Rightarrow> NativeQuery" where
  "Query_Distinct nq = nq\<lparr>nqDistinct := True\<rparr>"

definition Query_KeysOnly :: "NativeQuery \<Rightarrow> NativeQuery" where
  "Query_KeysOnly nq = nq\<lparr>nqKeysOnly := True\<rparr>"

definition Query_Limit :: "int \<Rightarrow> NativeQuery \<Rightarrow> NativeQuery" where
  "Query_Limit limit nq = nq\<lparr>nqLimit := Some limit\<rparr>"

definition Query_Offset :: "int \<Rightarrow> NativeQuery \<Rightarrow> NativeQuery" where
  "Query_Offset offset nq = nq\<lparr>nqOffset := Some offset\<rparr>"

definition Query_Project :: "string list \<Rightarrow> NativeQuery \<Rightarrow> NativeQuery" where
  "Query_Project proj nq = nq\<lparr>nqProjection := proj\<rparr>"

definition Query_Ancestor :: "NativeKey option \<Rightarrow> NativeQuery \<Rightarrow> NativeQuery" where
  "Query_Ancestor ancestor nq = nq\<lparr>nqAncestor := ancestor\<rparr>"

definition Query_EventualConsistency :: "NativeQuery \<Rightarrow> NativeQuery" where
  "Query_EventualConsistency nq = nq\<lparr>nqEventual := True\<rparr>"

definition Query_Order :: "string \<Rightarrow> NativeQuery \<Rightarrow> NativeQuery" where
  "Query_Order prop nq = nq\<lparr>nqOrder := nqOrder nq @ [prop]\<rparr>"

text \<open>
  \<^verbatim>\<open>prepareNativeQuery\<close>. \<^verbatim>\<open>nativeFilter\<close> encodes the value of a filter and falls
  back to the raw value. A step of the form \<^verbatim>\<open>if c { nq = nq.M() }\<close> is \<open>applyIf\<close>, a
  step that depends on an optional value is \<open>applySome\<close>; the steps are applied in the
  order of the source. The two type assertions on the cursors can panic; the steps
  before them have no effect outside the query, so the model checks the cursors first.
\<close>

definition nativeFilter :: "boundDatastore \<Rightarrow> Property \<Rightarrow> GoValue" where
  "nativeFilter bds prop =
     (case gaePropertyToNative bds [] [prop] of
        Inr np \<Rightarrow> npValue np
      | Inl _ \<Rightarrow> Property_Value prop)"

definition applyIf :: "bool \<Rightarrow> (NativeQuery \<Rightarrow> NativeQuery) \<Rightarrow> NativeQuery \<Rightarrow> NativeQuery" where
  "applyIf c step nq = (if c then step nq else nq)"

definition applySome ::
  "'a option \<Rightarrow> ('a \<Rightarrow> NativeQuery \<Rightarrow> NativeQuery) \<Rightarrow> NativeQuery \<Rightarrow> NativeQuery" where
  "applySome v step nq = (case v of None \<Rightarrow> nq | Some x \<Rightarrow> step x nq)"

definition ineqFilter ::
  "boundDatastore \<Rightarrow> string \<times> string \<times> Property \<Rightarrow> NativeQuery \<Rightarrow> NativeQuery" where
  "ineqFilter bds bound nq =
     (case bound of
        (field, op, prop) \<Rightarrow>
          applyIf (field \<noteq> []) (Query_Filter (field @ '' '' @ op) (nativeFilter bds prop)) nq)"

definition cursorBound :: "Cursor option \<Rightarrow> string option outcome" where
  "cursorBound c =
     (case c of
        None \<Rightarrow> Returns None
      | Some (NativeCursor s) \<Rightarrow> Returns (Some s)
      | Some (ForeignCursor _) \<Rightarrow> Panics ''interface conversion'')"

definition prepareNativeQuery :: "boundDatastore \<Rightarrow> FinalizedQuery \<Rightarrow> NativeQuery outcome" where
  "prepareNativeQuery bds fq =
     (case cursorBound (fst (fqBounds fq)) of
        Panics msg \<Rightarrow> Panics msg
      | Returns start \<Rightarrow>
          (case cursorBound (snd (fqBounds fq)) of
             Panics msg \<Rightarrow> Panics msg
           | Returns end \<Rightarrow>
               Returns
                 (fold (\<lambda>step nq. step nq)
                    [applySome (transaction bds) Query_Transaction,
                     fold (\<lambda>(field, props).
                             fold (\<lambda>prop. Query_Filter (field @ '' ='') (nativeFilter bds prop)) props)
                       (fqEqFilters fq),
                     applyIf (fqIneqFilterProp fq \<noteq> [])
                       (\<lambda>nq. ineqFilter bds (fqIneqFilterHigh fq)
                               (ineqFilter bds (fqIneqFilterLow fq) nq)),
                     applySome start Query_Start,
                     applySome end Query_End,
                     applyIf (fqDistinct fq) Query_Distinct,
                     applyIf (fqKeysOnly fq) Query_KeysOnly,
                     applySome (fqLimit fq) Query_Limit,
                     applySome (fqOffset fq) Query_Offset,
                     applySome (fqProject fq) Query_Project,
                     applySome (fqAncestor fq) (\<lambda>ancestor. Query_Ancestor (gaeKeyToNative bds ancestor)),
                     applyIf (fqEventuallyConsistent fq) Query_EventualConsistency,
                     fold (\<lambda>ic. Query_Order
                                   (if icDescending ic then ''-'' @ icProperty ic
                                    else icProperty ic))
                       (fqOrders fq)]
                    (NewQuery (fqKind fq)))))"

text \<open>
  Modelled from the spec: \<^verbatim>\<open>Iterator.Next(dst)\<close> of the client library hands out the
  next entity's key and, unless the query is keys-only, loads the entity's properties
  into \<open>dst\<close> through its \<^verbatim>\<open>Load\<close>. \<open>dst\<close> is the pointer the adapter passes: \<open>None\<close> is
  the nil load-saver.
\<close>

definition loadEntity ::
  "nativePropertyLoadSaver option \<Rightarrow> bool \<Rightarrow> NativeProperty list \<Rightarrow>
   (error option \<times> nativePropertyLoadSaver option) outcome" where
  "loadEntity dst keysOnly props =
     (if keysOnly then Returns (None, dst)
      else (case dst of
              None \<Rightarrow> Panics ''nil pointer dereference''
            | Some npls \<Rightarrow>
                (case Load npls props of
                   Panics msg \<Rightarrow> Panics msg
                 | Returns (err, npls') \<Rightarrow> Returns (err, Some npls'))))"

text \<open>What \<^verbatim>\<open>Run\<close> returns for a non-nil error of \<^verbatim>\<open>Next\<close>.\<close>

definition nextError :: "error \<Rightarrow> error option" where
  "nextError err = (if err = NativeDone then None else normalizeError (Some err))"

text \<open>
  \<^verbatim>\<open>Run\<close>. The callback takes the key and the property map of one result; the cursor
  getter it is also handed only reads the iterator and is left out. The loop ends with
  the iterator, with the first error, with \<^verbatim>\<open>Stop\<close> from the callback or with a panic.
\<close>

type_synonym 'w runCallback = "Key \<Rightarrow> PropertyMap \<Rightarrow> 'w \<Rightarrow> error option outcome \<times> 'w"

fun runLoop ::
  "boundDatastore \<Rightarrow> bool \<Rightarrow> bool \<Rightarrow> 'w runCallback \<Rightarrow>
   (NativeKey option \<times> NativeProperty list) list \<Rightarrow> error \<Rightarrow> 'w \<Rightarrow>
   error option outcome \<times> 'w" where
  "runLoop bds keysOnly itKeysOnly cb [] final w = (Returns (nextError final), w)"
| "runLoop bds keysOnly itKeysOnly cb ((nativeKey, props) # rest) final w =
     (let npls = (if \<not> keysOnly then Some (mkNPLS bds None) else None) in
      case loadEntity npls itKeysOnly props of
        Panics msg \<Rightarrow> (Panics msg, w)
      | Returns (Some err, _) \<Rightarrow> (Returns (nextError err), w)
      | Returns (None, npls) \<Rightarrow>
          (case nativeKeyToGAE bds nativeKey of
             Panics msg \<Rightarrow> (Panics msg, w)
           | Returns key \<Rightarrow>
               (case npls of
                  None \<Rightarrow> (Panics ''nil pointer dereference'', w)
                | Some ls \<Rightarrow>
                    (case cb key (pmap ls) w of
                       (Panics msg, w') \<Rightarrow> (Panics msg, w')
                     | (Returns None, w') \<Rightarrow>
                         runLoop bds keysOnly itKeysOnly cb rest final w'
                     | (Returns (Some err), w') \<Rightarrow>
                         if err = Stop then (Returns None, w')
                         else (Returns (normalizeError (Some err)), w')))))"

definition Run ::
  "'w Client \<Rightarrow> boundDatastore \<Rightarrow> FinalizedQuery \<Rightarrow> 'w runCallback \<Rightarrow> 'w \<Rightarrow>
   error option outcome \<times> 'w" where
  "Run client bds q cb w =
     (case prepareNativeQuery bds q of
        Panics msg \<Rightarrow> (Panics msg, w)
      | Returns nq \<Rightarrow>
          (let it = clientRun client nq w
           in runLoop bds (fqKeysOnly q) (nqKeysOnly nq) cb (itEntities it) (itFinal it) w))"

section \<open>Notions used in the statements\<close>

text \<open>
  A timestamp normalised to UTC, a key that belongs to the scope, and the property
  values that the codec carries through unchanged: every supported type but null,
  a key only when it has a token and bears the application id and namespace of the scope.
\<close>

definition normalizeTime :: "Property \<Rightarrow> Property" where
  "normalizeTime p =
     (case propData p of
        PVTime t \<Rightarrow> p\<lparr>propData := PVTime (Time_UTC t)\<rparr>
      | _ \<Rightarrow> p)"

definition keyInScope :: "boundDatastore \<Rightarrow> Key \<Rightarrow> bool" where
  "keyInScope bds k =
     (keyToks k \<noteq> [] \<and> keyAppID k = appID bds \<and> keyNamespace k = ctxNamespace bds)"

fun dataRoundTrips :: "boundDatastore \<Rightarrow> PropertyData \<Rightarrow> bool" where
  "dataRoundTrips bds PVNull = False"
| "dataRoundTrips bds (PVGeoPoint _ _) = False"
| "dataRoundTrips bds (PVBlobKey _) = False"
| "dataRoundTrips bds (PVKey k) = keyInScope bds k"
| "dataRoundTrips bds _ = True"

definition propRoundTrips :: "boundDatastore \<Rightarrow> Property \<Rightarrow> bool" where
  "propRoundTrips bds p = dataRoundTrips bds (propData p)"

definition withIndex :: "bool \<Rightarrow> Property \<Rightarrow> Property" where
  "withIndex noIndex p =
     \<lparr>propData = propData (normalizeTime p),
      indexSetting = (if noIndex then NoIndex else ShouldIndex)\<rparr>"

text \<open>
  One attempt of a transaction as a step on the world, the world after a number of
  attempts in a row, and whether the attempt with a given number ends in a conflict.
  The bound on the attempts is the option when it is positive, and 3 otherwise.
\<close>

definition attempt ::
  "'w Client \<Rightarrow> boundDatastore \<Rightarrow> (boundDatastore \<Rightarrow> 'w \<Rightarrow> error option \<times> 'w) \<Rightarrow>
   'w \<Rightarrow> error option \<times> 'w" where
  "attempt client bds fn w =
     clientRunInTransaction client (\<lambda>tx. fn (withDatastoreTransaction bds tx)) w"

definition worldAfter ::
  "'w Client \<Rightarrow> boundDatastore \<Rightarrow> (boundDatastore \<Rightarrow> 'w \<Rightarrow> error option \<times> 'w) \<Rightarrow>
   nat \<Rightarrow> 'w \<Rightarrow> 'w" where
  "worldAfter client bds fn n w = ((\<lambda>v. snd (attempt client bds fn v)) ^^ n) w"

definition attemptResult ::
  "'w Client \<Rightarrow> boundDatastore \<Rightarrow> (boundDatastore \<Rightarrow> 'w \<Rightarrow> error option \<times> 'w) \<Rightarrow>
   'w \<Rightarrow> nat \<Rightarrow> error option" where
  "attemptResult client bds fn w k =
     normalizeError (fst (attempt client bds fn (worldAfter client bds fn k w)))"

definition attemptBound :: "TransactionOptions option \<Rightarrow> nat" where
  "attemptBound opts =
     (case opts of
        None \<Rightarrow> 3
      | Some opt \<Rightarrow> if 0 < Attempts opt then nat (Attempts opt) else 3)"

definition crossGroup :: "TransactionOptions option \<Rightarrow> bool" where
  "crossGroup opts = (case opts of None \<Rightarrow> False | Some opt \<Rightarrow> XG opt)"

text \<open>
  A backend for the examples. Its world is the log of the calls made and of the
  callbacks run. An attempt of a transaction ends as the script says for its number
  (nil beyond the script); identifiers are allocated from 100 on; the batch calls end
  as the client is told; a query is answered from the given iterator, which holds the
  matching entities, cut at the limit of the query.
\<close>

datatype event =
    CallRunInTransaction
  | CallAllocateIDs "NativeKey option list"
  | CallPutMulti "NativeKey option list"
  | CallTxPutMulti Transaction "NativeKey option list"
  | CallGetMulti "NativeKey option list"
  | CallDeleteMulti "NativeKey option list"
  | ItemCallback nat "error option"
  | DeleteCallback "error option"
  | GetCallback PropertyMap "error option"
  | KeyCallback "Key option" "error option"
  | ResultCallback Key PropertyMap

fun allocate :: "int64 \<Rightarrow> NativeKey option list \<Rightarrow> NativeKey option list" where
  "allocate next [] = []"
| "allocate next (None # ks) = None # allocate next ks"
| "allocate next (Some (NativeKey kind ident name parent ns) # ks) =
     Some (NativeKey kind next name parent ns) # allocate (next + 1) ks"

definition exampleClient ::
  "error option list \<Rightarrow> error option \<Rightarrow> Iterator \<Rightarrow> event list Client" where
  "exampleClient script batchErr it =
     \<lparr>clientRunInTransaction =
        (\<lambda>f log.
           (let n = length (filter (\<lambda>e. e = CallRunInTransaction) log)
            in if n < length script then script ! n else None,
            log @ [CallRunInTransaction])),
      clientAllocateIDs = (\<lambda>ks log. ((allocate 100 ks, None), log @ [CallAllocateIDs ks])),
      clientPutMulti =
        (\<lambda>ks ls log.
           ((if batchErr = None then allocate 100 ks else [], batchErr), log @ [CallPutMulti ks])),
      txPutMulti = (\<lambda>tx ks ls log. (batchErr, log @ [CallTxPutMulti tx ks])),
      clientGetMulti = (\<lambda>ks ls log. ((ls, batchErr), log @ [CallGetMulti ks])),
      txGetMulti = (\<lambda>tx ks ls log. ((ls, batchErr), log @ [CallGetMulti ks])),
      clientDeleteMulti = (\<lambda>ks log. (batchErr, log @ [CallDeleteMulti ks])),
      txDeleteMulti = (\<lambda>tx ks log. (batchErr, log @ [CallDeleteMulti ks])),
      clientRun =
        (\<lambda>nq log.
           it\<lparr>itEntities :=
                (case nqLimit nq of
                   None \<Rightarrow> itEntities it
                 | Some n \<Rightarrow> take (nat n) (itEntities it))\<rparr>)\<rparr>"

text \<open>
  Running a callback on each argument of a list in turn, for as long as it returns nil:
  the first error or panic ends the run and is its result.
\<close>

fun callEach ::
  "('a \<Rightarrow> 'w \<Rightarrow> error option outcome \<times> 'w) \<Rightarrow> 'a list \<Rightarrow> 'w \<Rightarrow> error option outcome \<times> 'w" where
  "callEach f [] w = (Returns None, w)"
| "callEach f (x # xs) w =
     (case f x w of
        (Panics msg, w') \<Rightarrow> (Panics msg, w')
      | (Returns (Some err), w') \<Rightarrow> (Returns (Some err), w')
      | (Returns None, w') \<Rightarrow> callEach f xs w')"

text \<open>
  The entries of a property map, and those of them whose name does not begin with
  \<^verbatim>\<open>$\<close>; a native property is the encoding of an entry when the encoder returns it for
  the name and the values of the entry.
\<close>

definition entriesOf :: "PropertyMap \<Rightarrow> (string \<times> Property list) list" where
  "entriesOf pm = (case pm of None \<Rightarrow> [] | Some es \<Rightarrow> es)"

definition nonMeta :: "(string \<times> Property list) list \<Rightarrow> (string \<times> Property list) list" where
  "nonMeta entries = filter (\<lambda>e. take 1 (fst e) \<noteq> ''$'') entries"

definition encodes :: "boundDatastore \<Rightarrow> string \<times> Property list \<Rightarrow> NativeProperty \<Rightarrow> bool" where
  "encodes bds e np = (gaePropertyToNative bds (fst e) (snd e) = Inr np)"

text \<open>
  An entity of the iterator decodes to a key and a property map when its native key
  converts to the key and a fresh load-saver loads its properties into the map. The
  result of \<^verbatim>\<open>Run\<close> is read off the run of the callback over the decoded results:
  nil from every run leaves the answer to the end of the iterator, \<^verbatim>\<open>Stop\<close> is nil,
  any other error is returned normalised.
\<close>

definition decodes ::
  "boundDatastore \<Rightarrow> NativeKey option \<times> NativeProperty list \<Rightarrow> Key \<times> PropertyMap \<Rightarrow> bool" where
  "decodes bds e r =
     (nativeKeyToGAE bds (fst e) = Returns (fst r) \<and>
      (case Load (mkNPLS bds None) (snd e) of
         Returns (None, ls) \<Rightarrow> pmap ls = snd r
       | _ \<Rightarrow> False))"

definition runResult :: "error \<Rightarrow> error option outcome \<times> 'w \<Rightarrow> error option outcome \<times> 'w" where
  "runResult final r =
     (case r of
        (Panics msg, w') \<Rightarrow> (Panics msg, w')
      | (Returns None, w') \<Rightarrow> (Returns (nextError final), w')
      | (Returns (Some err), w') \<Rightarrow>
          (Returns (if err = Stop then None else normalizeError (Some err)), w'))"

text \<open>A query and the entities of a kind for the examples.\<close>

definition exampleQuery :: "bool \<Rightarrow> int option \<Rightarrow> FinalizedQuery" where
  "exampleQuery keysOnly limit =
     \<lparr>fqKind = ''Kind'', fqEqFilters = [], fqIneqFilterProp = [],
      fqIneqFilterLow = ([], [], zeroProperty), fqIneqFilterHigh = ([], [], zeroProperty),
      fqBounds = (None, None), fqDistinct = False, fqKeysOnly = keysOnly, fqLimit = limit,
      fqOffset = None, fqProject = None, fqAncestor = None, fqEventuallyConsistent = False,
      fqOrders = []\<rparr>"

definition exampleEntity :: "int64 \<Rightarrow> NativeKey option \<times> NativeProperty list" where
  "exampleEntity i =
     (Some (NativeKey ''Kind'' i [] None ''ns''),
      [\<lparr>npName = ''Value'', npValue = GoInt64 i, npNoIndex = False\<rparr>])"

definition exampleKey :: "int64 \<Rightarrow> Key" where
  "exampleKey i =
     \<lparr>keyAppID = ''app'', keyNamespace = ''ns'',
      keyToks = [\<lparr>tokKind = ''Kind'', tokIntID = i, tokStringID = []\<rparr>]\<rparr>"

definition exampleScope :: "Transaction option \<Rightarrow> boundDatastore" where
  "exampleScope tx = \<lparr>appID = ''app'', ctxNamespace = ''ns'', transaction = tx\<rparr>"

text \<open>
  The transactional write. A native key pointer is incomplete when it points to a key
  without identifier. Filling the incomplete keys of a list walks the list and gives
  each incomplete key, in order, the next of the allocated keys. The positions of the
  incomplete keys and the update of a list at given positions serve the proof. The
  allocation is the call of the backend, made only when there is an incomplete key. A
  key is complete at its leaf when its last token has an identifier.
\<close>

definition isIncomplete :: "NativeKey option \<Rightarrow> bool" where
  "isIncomplete k = (case k of None \<Rightarrow> False | Some nk \<Rightarrow> nkIncomplete nk)"

fun fillIncomplete :: "NativeKey option list \<Rightarrow> NativeKey option list \<Rightarrow> NativeKey option list" where
  "fillIncomplete [] ids = []"
| "fillIncomplete (k # ks) ids =
     (if isIncomplete k
      then (case ids of
              [] \<Rightarrow> k # fillIncomplete ks []
            | idKey # ids' \<Rightarrow> idKey # fillIncomplete ks ids')
      else k # fillIncomplete ks ids)"

fun incompletePositions :: "nat \<Rightarrow> NativeKey option list \<Rightarrow> nat list" where
  "incompletePositions i [] = []"
| "incompletePositions i (k # ks) =
     (if isIncomplete k then i # incompletePositions (Suc i) ks
      else incompletePositions (Suc i) ks)"

fun updateAt :: "nat list \<Rightarrow> 'a list \<Rightarrow> 'a list \<Rightarrow> 'a list" where
  "updateAt [] ids xs = xs"
| "updateAt (p # ps) [] xs = xs"
| "updateAt (p # ps) (idKey # ids) xs = updateAt ps ids (xs[p := idKey])"

definition allocation ::
  "'w Client \<Rightarrow> NativeKey option list \<Rightarrow> 'w \<Rightarrow> (NativeKey option list \<times> error option) \<times> 'w" where
  "allocation client incompleteKeys w =
     (if incompleteKeys = [] then (([], None), w)
      else clientAllocateIDs client incompleteKeys w)"

definition leafComplete :: "Key \<Rightarrow> bool" where
  "leafComplete k = (keyToks k \<noteq> [] \<and> \<not> tokIncomplete (last (keyToks k)))"

text \<open>
  The errors of a batch call. An error is an aggregate when it is the aggregate of the
  client library or an \<^verbatim>\<open>errors.MultiError\<close>. Distributing an error runs a callback
  over the arguments made from the entries of an aggregate; for any other error it runs
  nothing and returns the error normalised. The batch call of \<^verbatim>\<open>DeleteMulti\<close> and of
  \<^verbatim>\<open>GetMulti\<close> is the call of the client, inside or outside a transaction. The reports
  of \<^verbatim>\<open>PutMulti\<close> for an aggregate are, per entry, no key and the normalised error, or
  for an entry without error the key at its index in a list of native keys; such a list
  has the keys for an aggregate when it holds a key at the index of every entry
  without error.
\<close>

fun aggregateOf :: "error \<Rightarrow> error option list option" where
  "aggregateOf (NativeMultiError me) = Some me"
| "aggregateOf (MultiError me) = Some me"
| "aggregateOf _ = None"

definition distribute ::
  "error \<Rightarrow> (error option list \<Rightarrow> 'a list) \<Rightarrow> ('a \<Rightarrow> 'w \<Rightarrow> error option outcome \<times> 'w) \<Rightarrow>
   'w \<Rightarrow> error option outcome \<times> 'w" where
  "distribute err args f w =
     (case aggregateOf err of
        None \<Rightarrow> (Returns (normalizeError (Some err)), w)
      | Some me \<Rightarrow> callEach f (args me) w)"

definition aggregateFits :: "error \<Rightarrow> nat \<Rightarrow> bool" where
  "aggregateFits err n = (case aggregateOf err of None \<Rightarrow> True | Some me \<Rightarrow> length me \<le> n)"

definition deleteCall ::
  "'w Client \<Rightarrow> boundDatastore \<Rightarrow> Key list \<Rightarrow> 'w \<Rightarrow> error option \<times> 'w" where
  "deleteCall client bds keys w =
     (case transaction bds of
        Some tx \<Rightarrow> txDeleteMulti client tx (gaeKeysToNative bds keys) w
      | None \<Rightarrow> clientDeleteMulti client (gaeKeysToNative bds keys) w)"

definition getCall ::
  "'w Client \<Rightarrow> boundDatastore \<Rightarrow> Key list \<Rightarrow> 'w \<Rightarrow>
   (nativePropertyLoadSaver list \<times> error option) \<times> 'w" where
  "getCall client bds keys w =
     (case transaction bds of
        Some tx \<Rightarrow>
          txGetMulti client tx (gaeKeysToNative bds keys)
            (map (\<lambda>_. mkNPLS bds None) (gaeKeysToNative bds keys)) w
      | None \<Rightarrow>
          clientGetMulti client (gaeKeysToNative bds keys)
            (map (\<lambda>_. mkNPLS bds None) (gaeKeysToNative bds keys)) w)"

definition keyAt :: "boundDatastore \<Rightarrow> NativeKey option list \<Rightarrow> nat \<Rightarrow> Key option" where
  "keyAt bds ks i =
     (if i < length ks
      then (case nativeKeyToGAE bds (ks ! i) of Returns key \<Rightarrow> Some key | Panics _ \<Rightarrow> None)
      else None)"

definition putReports ::
  "boundDatastore \<Rightarrow> NativeKey option list \<Rightarrow> error option list \<Rightarrow>
   (Key option \<times> error option) list" where
  "putReports bds ks me =
     map (\<lambda>(i, e). if e = None then (keyAt bds ks i, None) else (None, normalizeError e))
       (zip [0..<length me] me)"

definition keysForNil :: "boundDatastore \<Rightarrow> NativeKey option list \<Rightarrow> error \<Rightarrow> bool" where
  "keysForNil bds ks err =
     (case aggregateOf err of
        None \<Rightarrow> True
      | Some me \<Rightarrow>
          list_all (\<lambda>(i, e). e \<noteq> None \<or> keyAt bds ks i \<noteq> None) (zip [0..<length me] me))"

section \<open>The key codec\<close>

lemma length_reverseToks: "length (reverseToks i xs) = length xs"
proof (induction i xs rule: reverseToks.induct)
  case (1 i toks)
  show ?case
  proof (cases "i < length toks div 2")
    case True
    with 1 show ?thesis by (subst reverseToks.simps) (simp add: Let_def)
  next
    case False
    then show ?thesis by (subst reverseToks.simps) simp
  qed
qed

text \<open>
  The index loop started at \<open>i\<close> mirrors the positions from \<open>i\<close> up to its counterpart at
  the other end and leaves the rest alone.
\<close>

lemma nth_reverseToks:
  "j < length xs \<Longrightarrow>
   reverseToks i xs ! j =
     (if i \<le> j \<and> j < length xs - i then xs ! (length xs - 1 - j) else xs ! j)"
proof (induction i xs arbitrary: j rule: reverseToks.induct)
  case (1 i toks)
  show ?case
  proof (cases "i < length toks div 2")
    case True
    let ?ri = "length toks - i - 1"
    let ?toks' = "toks[i := toks ! ?ri, ?ri := toks ! i]"
    have step: "reverseToks i toks = reverseToks (i + 1) ?toks'"
      using True by (subst reverseToks.simps) (simp add: Let_def)
    have ih: "reverseToks (i + 1) ?toks' ! j =
        (if i + 1 \<le> j \<and> j < length toks - (i + 1)
         then ?toks' ! (length toks - 1 - j) else ?toks' ! j)"
      using "1.IH" [OF True refl, of j] "1.prems" by simp
    show ?thesis
      unfolding step ih using True "1.prems"
      by (auto simp: nth_list_update)
  next
    case False
    have stop: "reverseToks i toks = toks"
      using False by (subst reverseToks.simps) simp
    have "length toks - 1 - j = j" if "i \<le> j" "j < length toks - i"
      using that False by arith
    then show ?thesis unfolding stop by auto
  qed
qed

lemma reverseToks_rev: "reverseToks 0 xs = rev xs"
  by (rule nth_equalityI) (simp_all add: length_reverseToks nth_reverseToks rev_nth)

lemma collectToks_acc: "collectToks acc nk = acc @ collectToks [] nk"
proof (induction nk arbitrary: acc)
  case (NativeKey kind ident name parent ns)
  show ?case
  proof (cases parent)
    case None
    then show ?thesis by simp
  next
    case (Some cur)
    have ih: "collectToks a cur = a @ collectToks [] cur" for a
      using NativeKey [of cur a] Some by simp
    show ?thesis
      using Some ih [of "acc @ [\<lparr>tokKind = kind, tokIntID = ident, tokStringID = name\<rparr>]"]
        ih [of "[\<lparr>tokKind = kind, tokIntID = ident, tokStringID = name\<rparr>]"]
      by simp
  qed
qed

text \<open>
  Building the native key ancestor-first and walking it back from the leaf gives the
  tokens in reverse, followed by the tokens of the parent the build started from.
\<close>

lemma gaeToksToNative_collect:
  "toks \<noteq> [] \<Longrightarrow>
   \<exists>nk. gaeToksToNative bds parent toks = Some nk \<and> nkNamespace nk = ctxNamespace bds \<and>
     collectToks [] nk =
       rev toks @ (case parent of None \<Rightarrow> [] | Some p \<Rightarrow> collectToks [] p)"
proof (induction toks arbitrary: parent)
  case Nil
  then show ?case by simp
next
  case (Cons tok toks)
  let ?nk = "NativeKey (tokKind tok) (tokIntID tok) (tokStringID tok) parent (ctxNamespace bds)"
  have one: "collectToks [] ?nk = tok # (case parent of None \<Rightarrow> [] | Some p \<Rightarrow> collectToks [] p)"
    by (cases parent) (simp_all add: collectToks_acc [of "[_]"])
  show ?case
  proof (cases toks)
    case Nil
    then show ?thesis using one by (simp add: NewKey_def)
  next
    case (Cons t ts)
    then have "toks \<noteq> []" by simp
    from Cons.IH [OF this, of "Some ?nk"] one
    show ?thesis by (simp add: NewKey_def)
  qed
qed

lemma gaeKeyToNative_Some:
  assumes "keyToks k \<noteq> []"
  shows "\<exists>nk. gaeKeyToNative bds k = Some nk \<and> nkNamespace nk = ctxNamespace bds \<and>
    collectToks [] nk = rev (keyToks k)"
  using gaeToksToNative_collect [OF assms, of bds None] by (simp add: gaeKeyToNative_def)

lemma key_roundtrip_general:
  assumes "keyToks k \<noteq> []"
  shows "nativeKeyToGAE bds (gaeKeyToNative bds k) =
    Returns (k\<lparr>keyAppID := appID bds, keyNamespace := ctxNamespace bds\<rparr>)"
proof -
  from gaeKeyToNative_Some [OF assms, of bds]
  obtain nk where "gaeKeyToNative bds k = Some nk"
    "nkNamespace nk = ctxNamespace bds" "collectToks [] nk = rev (keyToks k)"
    by auto
  then show ?thesis
    by (simp add: nativeKeyToGAE_def NewKeyToks_def reverseToks_rev)
qed

text \<open>
  Claim C1, as the code has it. For every complete key \<open>k\<close>, converting \<open>k\<close> to a native
  key and back returns the key with the tokens of \<open>k\<close> in their root-to-leaf order, the
  application id of the scope and the namespace of the native key, which is the
  namespace bound into the scope. The result is \<open>k\<close> itself exactly when \<open>k\<close> bears the
  application id and the namespace of the scope: the conversion drops the key's own.
\<close>

theorem key_codec_roundtrip:
  assumes "keyComplete k"
  shows "(\<exists>nk. gaeKeysToNative bds [k] = [Some nk] \<and> nkNamespace nk = ctxNamespace bds \<and>
            nativeKeysToGAE bds [Some nk] =
              Returns [\<lparr>keyAppID = appID bds, keyNamespace = nkNamespace nk,
                        keyToks = keyToks k\<rparr>]) \<and>
         ((nativeKeysToGAE bds (gaeKeysToNative bds [k]) = Returns [k]) =
            (keyAppID k = appID bds \<and> keyNamespace k = ctxNamespace bds))"
proof -
  from assms have toks: "keyToks k \<noteq> []" by (simp add: keyComplete_def)
  from gaeKeyToNative_Some [OF toks, of bds]
  obtain nk where nk: "gaeKeyToNative bds k = Some nk" "nkNamespace nk = ctxNamespace bds"
    by auto
  have decoded: "nativeKeyToGAE bds (Some nk) =
      Returns (k\<lparr>keyAppID := appID bds, keyNamespace := ctxNamespace bds\<rparr>)"
    using key_roundtrip_general [OF toks, of bds] nk by simp
  have eq: "(k\<lparr>keyAppID := appID bds, keyNamespace := ctxNamespace bds\<rparr> = k) =
      (keyAppID k = appID bds \<and> keyNamespace k = ctxNamespace bds)"
    by (cases k) auto
  have shape: "k\<lparr>keyAppID := appID bds, keyNamespace := ctxNamespace bds\<rparr> =
      \<lparr>keyAppID = appID bds, keyNamespace = nkNamespace nk, keyToks = keyToks k\<rparr>"
    using nk by (cases k) simp
  show ?thesis
    using nk decoded eq shape by (simp add: gaeKeysToNative_def)
qed

theorem key_codec_roundtrip_witness:
  "keyComplete
     \<lparr>keyAppID = ''app'', keyNamespace = ''ns'',
      keyToks = [\<lparr>tokKind = ''Parent'', tokIntID = 0, tokStringID = ''root''\<rparr>,
                 \<lparr>tokKind = ''Child'', tokIntID = 7, tokStringID = ''''\<rparr>]\<rparr> \<and>
   nativeKeysToGAE \<lparr>appID = ''app'', ctxNamespace = ''ns'', transaction = None\<rparr>
     (gaeKeysToNative \<lparr>appID = ''app'', ctxNamespace = ''ns'', transaction = None\<rparr>
        [\<lparr>keyAppID = ''app'', keyNamespace = ''ns'',
          keyToks = [\<lparr>tokKind = ''Parent'', tokIntID = 0, tokStringID = ''root''\<rparr>,
                     \<lparr>tokKind = ''Child'', tokIntID = 7, tokStringID = ''''\<rparr>]\<rparr>]) =
   Returns
     [\<lparr>keyAppID = ''app'', keyNamespace = ''ns'',
       keyToks = [\<lparr>tokKind = ''Parent'', tokIntID = 0, tokStringID = ''root''\<rparr>,
                  \<lparr>tokKind = ''Child'', tokIntID = 7, tokStringID = ''''\<rparr>]\<rparr>]"
proof -
  let ?k = "\<lparr>keyAppID = ''app'', keyNamespace = ''ns'',
      keyToks = [\<lparr>tokKind = ''Parent'', tokIntID = 0, tokStringID = ''root''\<rparr>,
                 \<lparr>tokKind = ''Child'', tokIntID = 7, tokStringID = ''''\<rparr>]\<rparr>"
  let ?bds = "\<lparr>appID = ''app'', ctxNamespace = ''ns'', transaction = None\<rparr>"
  have c: "keyComplete ?k"
    by (simp add: keyComplete_def tokComplete_def tokIncomplete_def)
  from key_codec_roundtrip [OF c, of ?bds] c show ?thesis by simp
qed

text \<open>
  The claim as stated fails for a key of another application: the key that comes back
  bears the application id of the scope.
\<close>

theorem key_codec_roundtrip_counterexample:
  "keyComplete
     \<lparr>keyAppID = ''other'', keyNamespace = '''',
      keyToks = [\<lparr>tokKind = ''Kind'', tokIntID = 1, tokStringID = ''''\<rparr>]\<rparr> \<and>
   nativeKeysToGAE \<lparr>appID = ''app'', ctxNamespace = '''', transaction = None\<rparr>
     (gaeKeysToNative \<lparr>appID = ''app'', ctxNamespace = '''', transaction = None\<rparr>
        [\<lparr>keyAppID = ''other'', keyNamespace = '''',
          keyToks = [\<lparr>tokKind = ''Kind'', tokIntID = 1, tokStringID = ''''\<rparr>]\<rparr>]) =
   Returns
     [\<lparr>keyAppID = ''app'', keyNamespace = '''',
       keyToks = [\<lparr>tokKind = ''Kind'', tokIntID = 1, tokStringID = ''''\<rparr>]\<rparr>] \<and>
   nativeKeysToGAE \<lparr>appID = ''app'', ctxNamespace = '''', transaction = None\<rparr>
     (gaeKeysToNative \<lparr>appID = ''app'', ctxNamespace = '''', transaction = None\<rparr>
        [\<lparr>keyAppID = ''other'', keyNamespace = '''',
          keyToks = [\<lparr>tokKind = ''Kind'', tokIntID = 1, tokStringID = ''''\<rparr>]\<rparr>]) \<noteq>
   Returns
     [\<lparr>keyAppID = ''other'', keyNamespace = '''',
       keyToks = [\<lparr>tokKind = ''Kind'', tokIntID = 1, tokStringID = ''''\<rparr>]\<rparr>]"
  by (simp add: keyComplete_def tokComplete_def tokIncomplete_def gaeKeysToNative_def
      gaeKeyToNative_def NewKey_def nativeKeyToGAE_def NewKeyToks_def reverseToks_rev)

section \<open>The property codec\<close>

lemma value_roundtrip:
  assumes "propRoundTrips bds p"
  shows "\<exists>v. gaeValueToNative bds i p = Inr v \<and> nativeValuesOf v = Returns [v] \<and>
    (\<exists>v'. nativeValueToGAE bds j v = Returns (Inr v') \<and>
       dataOfValue v' = Some (propData (normalizeTime p)))"
proof (cases "propData p")
  case (PVKey k)
  with assms have "keyToks k \<noteq> []"
    "k\<lparr>keyAppID := appID bds, keyNamespace := ctxNamespace bds\<rparr> = k"
    by (simp_all add: propRoundTrips_def keyInScope_def)
  with PVKey key_roundtrip_general [of k bds] show ?thesis
    by (simp add: gaeValueToNative_def Property_Type_def normalizeTime_def nativeValuesOf_def)
qed (use assms in \<open>simp_all add: propRoundTrips_def gaeValueToNative_def Property_Type_def
  Property_Value_def normalizeTime_def nativeValuesOf_def\<close>)

text \<open>
  Encoding a list of such values succeeds, yields no slice among the elements, and
  decoding the elements restores each value, its timestamp in UTC, under the index
  setting of the native property.
\<close>

lemma values_roundtrip:
  assumes "\<forall>p\<in>set props. propRoundTrips bds p"
  shows "\<exists>vs. gaeValuesToNative bds i props = Inr vs \<and> length vs = length props \<and>
    (\<forall>v\<in>set vs. nativeValuesOf v = Returns [v]) \<and>
    nativeValuesToGAE bds noIndex j vs = Returns (Inr (map (withIndex noIndex) props))"
  using assms
proof (induction props arbitrary: i j)
  case Nil
  then show ?case by simp
next
  case (Cons p props)
  from Cons.prems have p: "propRoundTrips bds p" and rest: "\<forall>p\<in>set props. propRoundTrips bds p"
    by simp_all
  from value_roundtrip [OF p, of i j] obtain v v' where
    v: "gaeValueToNative bds i p = Inr v" "nativeValuesOf v = Returns [v]"
      "nativeValueToGAE bds j v = Returns (Inr v')"
      "dataOfValue v' = Some (propData (normalizeTime p))"
    by blast
  from Cons.IH [OF rest, of "i + 1" "j + 1"] obtain vs where
    vs: "gaeValuesToNative bds (i + 1) props = Inr vs" "length vs = length props"
      "\<forall>v\<in>set vs. nativeValuesOf v = Returns [v]"
      "nativeValuesToGAE bds noIndex (j + 1) vs = Returns (Inr (map (withIndex noIndex) props))"
    by blast
  show ?case
    using v vs by (simp add: Property_SetValue_def withIndex_def)
qed

lemma values_index:
  "nativeValuesToGAE bds False i nvs = Returns (Inr props) \<Longrightarrow>
   length props = length nvs \<and> list_all (\<lambda>p. indexSetting p = ShouldIndex) props"
proof (induction nvs arbitrary: i props)
  case Nil
  then show ?case by simp
next
  case (Cons nv nvs)
  from Cons.prems obtain nv' ps where
    a: "nativeValueToGAE bds i nv = Returns (Inr nv')"
    and b: "nativeValuesToGAE bds False (i + 1) nvs = Returns (Inr ps)"
    and c: "props = Property_SetValue nv' ShouldIndex zeroProperty # ps"
    by (auto simp: Let_def split: outcome.splits sum.splits)
  have "indexSetting (Property_SetValue nv' ShouldIndex zeroProperty) = ShouldIndex"
    by (simp add: Property_SetValue_def zeroProperty_def split: option.splits)
  with Cons.IH [OF b] c show ?case by simp
qed

lemma gaeValues_length:
  "gaeValuesToNative bds i props = Inr vs \<Longrightarrow> length vs = length props"
  by (induction props arbitrary: i vs) (auto split: sum.splits)

lemma withIndex_own:
  "withIndex (indexSetting p \<noteq> ShouldIndex) p = normalizeTime p"
  by (cases p; cases "indexSetting p"; cases "propData p")
     (simp_all add: withIndex_def normalizeTime_def)

lemma withIndex_should:
  "indexSetting p = ShouldIndex \<Longrightarrow> withIndex False p = normalizeTime p"
  using withIndex_own [of p] by simp

text \<open>
  The round trip in general: a non-empty list of such values encodes, and decodes to
  the values with their timestamps in UTC; a single value keeps its index setting, the
  values of a longer list all come back as should-index.
\<close>

lemma property_roundtrip_general:
  assumes ne: "props \<noteq> []" and ok: "\<forall>p\<in>set props. propRoundTrips bds p"
  shows "\<exists>np. gaePropertyToNative bds name props = Inr np \<and>
    nativePropertyToGAE bds np =
      Returns (Inr (name,
        map (withIndex (length props = 1 \<and> indexSetting (props ! 0) \<noteq> ShouldIndex)) props))"
proof -
  let ?noIndex = "length props = 1 \<and> indexSetting (props ! 0) \<noteq> ShouldIndex"
  from values_roundtrip [OF ok, of 0 ?noIndex 0] obtain vs where
    vs: "gaeValuesToNative bds 0 props = Inr vs" "length vs = length props"
      "\<forall>v\<in>set vs. nativeValuesOf v = Returns [v]"
      "nativeValuesToGAE bds ?noIndex 0 vs = Returns (Inr (map (withIndex ?noIndex) props))"
    by blast
  show ?thesis
  proof (cases "length props = 1")
    case True
    with vs(2) obtain v where v: "vs = [v]" by (cases vs) auto
    with vs(3) have "nativeValuesOf v = Returns [v]" by simp
    with True v vs show ?thesis
      by (simp add: gaePropertyToNative_def nativePropertyToGAE_def)
  next
    case False
    from ne vs(2) have "vs \<noteq> []" by auto
    with False vs show ?thesis
      by (simp add: gaePropertyToNative_def nativePropertyToGAE_def nativeValuesOf_def)
  qed
qed

text \<open>
  Claim C2, as the code has it. For every non-empty list of property values of the types
  integer, timestamp, boolean, bytes, string, float and key (each key with a token and
  the application id and namespace of the scope), which has one value or whose values
  are all marked should-index, encoding the list to a native property and decoding the
  result yields the name and the list again, with every timestamp normalised to UTC.
\<close>

theorem property_codec_roundtrip:
  assumes "props \<noteq> []"
    and "\<forall>p\<in>set props. propRoundTrips bds p"
    and "length props = 1 \<or> (\<forall>p\<in>set props. indexSetting p = ShouldIndex)"
  shows "\<exists>np. gaePropertyToNative bds name props = Inr np \<and>
    nativePropertyToGAE bds np = Returns (Inr (name, map normalizeTime props))"
proof -
  let ?noIndex = "length props = 1 \<and> indexSetting (props ! 0) \<noteq> ShouldIndex"
  have eq: "map (withIndex ?noIndex) props = map normalizeTime props"
  proof (cases "length props = 1")
    case True
    then obtain p where "props = [p]" by (cases props) auto
    then show ?thesis by (simp add: withIndex_own)
  next
    case False
    with assms(3) have "\<forall>p\<in>set props. indexSetting p = ShouldIndex" by simp
    with False show ?thesis by (simp add: withIndex_should)
  qed
  from property_roundtrip_general [OF assms(1,2), of name] show ?thesis
    unfolding eq .
qed

text \<open>
  Claim C3. The native property encoded from a list of more than one value is never
  flagged no-index, whatever the index settings of the values. Hence whatever decoding
  it returns has as many values as the list, all marked should-index; and decoding does
  return the values, re-marked should-index, when they are of the types that decode.
\<close>

theorem list_always_indexed:
  assumes "1 < length props" and "gaePropertyToNative bds name props = Inr np"
  shows "\<not> npNoIndex np \<and>
    (\<forall>name' props'. nativePropertyToGAE bds np = Returns (Inr (name', props')) \<longrightarrow>
       length props' = length props \<and> (\<forall>p\<in>set props'. indexSetting p = ShouldIndex)) \<and>
    ((\<forall>p\<in>set props. propRoundTrips bds p) \<longrightarrow>
       nativePropertyToGAE bds np =
         Returns (Inr (name, map (\<lambda>p. normalizeTime (p\<lparr>indexSetting := ShouldIndex\<rparr>)) props)))"
proof -
  from assms(2) obtain vs where vs: "gaeValuesToNative bds 0 props = Inr vs"
    by (auto simp: gaePropertyToNative_def split: sum.splits)
  from gaeValues_length [OF vs] assms(1) have len: "length vs = length props" "length vs \<noteq> 1"
    and vsne: "vs \<noteq> []" by auto
  with assms(2) vs have np: "np = \<lparr>npName = name, npValue = GoSlice vs, npNoIndex = False\<rparr>"
    by (simp add: gaePropertyToNative_def)
  have a: "\<not> npNoIndex np" using np by simp
  have b: "length props' = length props \<and> (\<forall>p\<in>set props'. indexSetting p = ShouldIndex)"
    if "nativePropertyToGAE bds np = Returns (Inr (name', props'))" for name' props'
  proof -
    from that np vsne have "nativeValuesToGAE bds False 0 vs = Returns (Inr props')"
      by (auto simp: nativePropertyToGAE_def nativeValuesOf_def split: outcome.splits sum.splits)
    from values_index [OF this] len show ?thesis by (simp add: list_all_iff)
  qed
  have c: "nativePropertyToGAE bds np =
      Returns (Inr (name, map (\<lambda>p. normalizeTime (p\<lparr>indexSetting := ShouldIndex\<rparr>)) props))"
    if ok: "\<forall>p\<in>set props. propRoundTrips bds p"
  proof -
    from assms(1) have ne: "props \<noteq> []" "length props \<noteq> 1" by auto
    have w: "withIndex False p = normalizeTime (p\<lparr>indexSetting := ShouldIndex\<rparr>)" for p
      by (cases "propData p") (simp_all add: withIndex_def normalizeTime_def)
    from property_roundtrip_general [OF ne(1) ok, of name] assms(2) ne(2) w
    show ?thesis by simp
  qed
  from a b c show ?thesis by blast
qed

theorem list_always_indexed_witness:
  "\<not> npNoIndex
       \<lparr>npName = ''tags'', npValue = GoSlice [GoString ''a'', GoInt64 2], npNoIndex = False\<rparr> \<and>
   nativePropertyToGAE \<lparr>appID = ''app'', ctxNamespace = ''ns'', transaction = None\<rparr>
     \<lparr>npName = ''tags'', npValue = GoSlice [GoString ''a'', GoInt64 2], npNoIndex = False\<rparr> =
   Returns (Inr (''tags'',
     [\<lparr>propData = PVString ''a'', indexSetting = ShouldIndex\<rparr>,
      \<lparr>propData = PVInt 2, indexSetting = ShouldIndex\<rparr>]))"
proof -
  let ?bds = "\<lparr>appID = ''app'', ctxNamespace = ''ns'', transaction = None\<rparr>"
  let ?props = "[\<lparr>propData = PVString ''a'', indexSetting = NoIndex\<rparr>,
      \<lparr>propData = PVInt 2, indexSetting = NoIndex\<rparr>]"
  let ?np = "\<lparr>npName = ''tags'', npValue = GoSlice [GoString ''a'', GoInt64 2],
      npNoIndex = False\<rparr>"
  have len: "1 < length ?props" by simp
  have enc: "gaePropertyToNative ?bds ''tags'' ?props = Inr ?np"
    by (simp add: gaePropertyToNative_def gaeValueToNative_def Property_Type_def
        Property_Value_def)
  have ok: "\<forall>p\<in>set ?props. propRoundTrips ?bds p"
    by (simp add: propRoundTrips_def)
  from list_always_indexed [OF len enc] ok show ?thesis
    by (simp add: normalizeTime_def)
qed

theorem property_codec_roundtrip_witness:
  "\<exists>np. gaePropertyToNative \<lparr>appID = ''app'', ctxNamespace = ''ns'', transaction = None\<rparr> ''seen''
           [\<lparr>propData = PVTime \<lparr>instant = 5, location = Local\<rparr>, indexSetting = NoIndex\<rparr>] = Inr np \<and>
         nativePropertyToGAE \<lparr>appID = ''app'', ctxNamespace = ''ns'', transaction = None\<rparr> np =
           Returns (Inr (''seen'',
             [\<lparr>propData = PVTime \<lparr>instant = 5, location = UTC\<rparr>, indexSetting = NoIndex\<rparr>]))"
proof -
  let ?bds = "\<lparr>appID = ''app'', ctxNamespace = ''ns'', transaction = None\<rparr>"
  let ?props = "[\<lparr>propData = PVTime \<lparr>instant = 5, location = Local\<rparr>, indexSetting = NoIndex\<rparr>]"
  have ne: "?props \<noteq> []" by simp
  have ok: "\<forall>p\<in>set ?props. propRoundTrips ?bds p"
    by (simp add: propRoundTrips_def)
  have one: "length ?props = 1 \<or> (\<forall>p\<in>set ?props. indexSetting p = ShouldIndex)" by simp
  from property_codec_roundtrip [OF ne ok one, of "''seen''"] show ?thesis
    by (simp add: normalizeTime_def Time_UTC_def)
qed

text \<open>
  The claim as stated fails for a list of two integers marked no-index: the values come
  back marked should-index.
\<close>

theorem property_codec_roundtrip_counterexample:
  "gaePropertyToNative \<lparr>appID = ''app'', ctxNamespace = ''ns'', transaction = None\<rparr> ''n''
     [\<lparr>propData = PVInt 1, indexSetting = NoIndex\<rparr>,
      \<lparr>propData = PVInt 2, indexSetting = NoIndex\<rparr>] =
   Inr \<lparr>npName = ''n'', npValue = GoSlice [GoInt64 1, GoInt64 2], npNoIndex = False\<rparr> \<and>
   nativePropertyToGAE \<lparr>appID = ''app'', ctxNamespace = ''ns'', transaction = None\<rparr>
     \<lparr>npName = ''n'', npValue = GoSlice [GoInt64 1, GoInt64 2], npNoIndex = False\<rparr> =
   Returns (Inr (''n'',
     [\<lparr>propData = PVInt 1, indexSetting = ShouldIndex\<rparr>,
      \<lparr>propData = PVInt 2, indexSetting = ShouldIndex\<rparr>])) \<and>
   nativePropertyToGAE \<lparr>appID = ''app'', ctxNamespace = ''ns'', transaction = None\<rparr>
     \<lparr>npName = ''n'', npValue = GoSlice [GoInt64 1, GoInt64 2], npNoIndex = False\<rparr> \<noteq>
   Returns (Inr (''n'',
     map normalizeTime
       [\<lparr>propData = PVInt 1, indexSetting = NoIndex\<rparr>,
        \<lparr>propData = PVInt 2, indexSetting = NoIndex\<rparr>]))"
  by (simp add: gaePropertyToNative_def gaeValueToNative_def Property_Type_def
      Property_Value_def nativePropertyToGAE_def nativeValuesOf_def Property_SetValue_def
      normalizeTime_def)

text \<open>
  A null value is encoded as the nil value, which the type switch of the decoder does
  not list: decoding it is the error for an unsupported type.
\<close>

lemma null_value_not_decoded:
  "gaePropertyToNative bds name [\<lparr>propData = PVNull, indexSetting = setting\<rparr>] =
     Inr \<lparr>npName = name, npValue = GoNil, npNoIndex = (setting \<noteq> ShouldIndex)\<rparr> \<and>
   nativePropertyToGAE bds \<lparr>npName = name, npValue = GoNil, npNoIndex = noIndex\<rparr> =
     Returns (Inl (UnsupportedValueType 0 ''<nil>''))"
  by (simp add: gaePropertyToNative_def gaeValueToNative_def Property_Type_def
      Property_Value_def nativePropertyToGAE_def nativeValuesOf_def)

section \<open>Transactions: retry and rejection\<close>

lemma worldAfter_Suc:
  "worldAfter client bds fn (Suc n) w = snd (attempt client bds fn (worldAfter client bds fn n w))"
  by (simp add: worldAfter_def)

lemma runAttempts_step:
  "i < attempts \<Longrightarrow>
   runAttempts client bds fn attempts i w =
     (let r = normalizeError (fst (attempt client bds fn w));
          w' = snd (attempt client bds fn w)
      in if r \<noteq> Some ErrConcurrentTransaction then (r, w')
         else runAttempts client bds fn attempts (i + 1) w')"
  by (subst runAttempts.simps) (simp add: attempt_def Let_def split: prod.splits)

lemma runAttempts_stop:
  "\<not> i < attempts \<Longrightarrow>
   runAttempts client bds fn attempts i w = (Some ErrConcurrentTransaction, w)"
  by (subst runAttempts.simps) simp

lemma runAttempts_all_conflict:
  assumes "i \<le> n"
    and "\<forall>k. i \<le> k \<and> k < n \<longrightarrow> attemptResult client bds fn w k = Some ErrConcurrentTransaction"
  shows "runAttempts client bds fn (int n) (int i) (worldAfter client bds fn i w) =
    (Some ErrConcurrentTransaction, worldAfter client bds fn n w)"
  using assms
proof (induction "n - i" arbitrary: i)
  case 0
  then have "i = n" by simp
  then show ?case by (simp add: runAttempts_stop)
next
  case (Suc d)
  then have lt: "i < n" and d: "d = n - Suc i" by simp_all
  from Suc.prems lt have c: "attemptResult client bds fn w i = Some ErrConcurrentTransaction"
    by simp
  have ih: "runAttempts client bds fn (int n) (int (Suc i)) (worldAfter client bds fn (Suc i) w) =
      (Some ErrConcurrentTransaction, worldAfter client bds fn n w)"
    using Suc.hyps(1) [OF d] lt Suc.prems(2) by simp
  have s: "int i + 1 = int (Suc i)" by simp
  show ?case
    using lt c ih unfolding s [symmetric]
    by (simp add: runAttempts_step attemptResult_def worldAfter_Suc Let_def)
qed

lemma runAttempts_first_other:
  assumes "i \<le> k" and "k < n"
    and "\<forall>j. i \<le> j \<and> j < k \<longrightarrow> attemptResult client bds fn w j = Some ErrConcurrentTransaction"
    and "attemptResult client bds fn w k \<noteq> Some ErrConcurrentTransaction"
  shows "runAttempts client bds fn (int n) (int i) (worldAfter client bds fn i w) =
    (attemptResult client bds fn w k, worldAfter client bds fn (Suc k) w)"
  using assms
proof (induction "k - i" arbitrary: i)
  case 0
  then have "i = k" by simp
  with 0 show ?case
    by (simp add: runAttempts_step attemptResult_def worldAfter_Suc Let_def)
next
  case (Suc d)
  then have lt: "i < k" and d: "d = k - Suc i" by simp_all
  from Suc.prems lt have c: "attemptResult client bds fn w i = Some ErrConcurrentTransaction"
    by simp
  have ih: "runAttempts client bds fn (int n) (int (Suc i)) (worldAfter client bds fn (Suc i) w) =
      (attemptResult client bds fn w k, worldAfter client bds fn (Suc k) w)"
    using Suc.hyps(1) [OF d] lt Suc.prems by simp
  have s: "int i + 1 = int (Suc i)" by simp
  from lt Suc.prems have "i < n" by simp
  then show ?case
    using c ih unfolding s [symmetric]
    by (simp add: runAttempts_step attemptResult_def worldAfter_Suc Let_def)
qed

lemma RunInTransaction_loop:
  assumes "transaction bds = None" and "\<not> crossGroup opts"
  shows "RunInTransaction client bds fn opts w =
    runAttempts client bds fn (int (attemptBound opts)) (int 0) (worldAfter client bds fn 0 w)"
  using assms
  by (auto simp: RunInTransaction_def crossGroup_def attemptBound_def worldAfter_def
      split: option.splits)

text \<open>
  Claim C4. Outside a transaction and without the cross-group option, the bound on the
  attempts is at least 1 (the option when positive, 3 otherwise). If every attempt up to
  the bound ends in a conflict, \<^verbatim>\<open>RunInTransaction\<close> returns the conflict sentinel and
  the world is the one left by exactly as many attempts as the bound. If attempt \<open>k\<close> is
  the first that ends otherwise, in an error or in nil, \<^verbatim>\<open>RunInTransaction\<close> returns
  that result, normalised, and the world is the one left by exactly \<open>k + 1\<close> attempts.
\<close>

theorem transaction_retry:
  assumes "transaction bds = None" and "\<not> crossGroup opts"
  shows "1 \<le> attemptBound opts \<and>
    ((\<forall>k<attemptBound opts. attemptResult client bds fn w k = Some ErrConcurrentTransaction) \<longrightarrow>
       RunInTransaction client bds fn opts w =
         (Some ErrConcurrentTransaction, worldAfter client bds fn (attemptBound opts) w)) \<and>
    (\<forall>k<attemptBound opts.
       (\<forall>j<k. attemptResult client bds fn w j = Some ErrConcurrentTransaction) \<and>
       attemptResult client bds fn w k \<noteq> Some ErrConcurrentTransaction \<longrightarrow>
       RunInTransaction client bds fn opts w =
         (attemptResult client bds fn w k, worldAfter client bds fn (Suc k) w))"
proof -
  have a: "1 \<le> attemptBound opts"
    by (auto simp: attemptBound_def split: option.splits)
  have b: "RunInTransaction client bds fn opts w =
      (Some ErrConcurrentTransaction, worldAfter client bds fn (attemptBound opts) w)"
    if "\<forall>k<attemptBound opts. attemptResult client bds fn w k = Some ErrConcurrentTransaction"
    using runAttempts_all_conflict [of 0 "attemptBound opts" client bds fn w] that
    by (simp add: RunInTransaction_loop [OF assms])
  have c: "RunInTransaction client bds fn opts w =
      (attemptResult client bds fn w k, worldAfter client bds fn (Suc k) w)"
    if "k < attemptBound opts"
      "\<forall>j<k. attemptResult client bds fn w j = Some ErrConcurrentTransaction"
      "attemptResult client bds fn w k \<noteq> Some ErrConcurrentTransaction" for k
    using runAttempts_first_other [of 0 k "attemptBound opts" client bds fn w] that
    by (simp add: RunInTransaction_loop [OF assms])
  from a b c show ?thesis by blast
qed

text \<open>
  Claim C5. In a scope that has a transaction bound, and for a call with the
  cross-group option set, \<^verbatim>\<open>RunInTransaction\<close> returns a configuration error and leaves
  the world as it was, whatever the backend is: no call is made and no attempt run.
\<close>

theorem transaction_rejected:
  assumes "transaction bds \<noteq> None \<or> crossGroup opts"
  shows "RunInTransaction client bds fn opts w =
    (Some (ErrorsNew (if transaction bds \<noteq> None then ''nested transactions are not supported''
                      else ''cross-group transactions are not supported'')), w)"
  using assms by (auto simp: RunInTransaction_def crossGroup_def split: option.splits)

theorem transaction_retry_witness:
  "RunInTransaction
     (exampleClient [Some NativeErrConcurrentTransaction, Some NativeErrConcurrentTransaction]
        None \<lparr>itEntities = [], itFinal = NativeDone\<rparr>)
     \<lparr>appID = ''app'', ctxNamespace = ''ns'', transaction = None\<rparr>
     (\<lambda>c w. (None, w)) (Some \<lparr>XG = False, Attempts = 2\<rparr>) [] =
   (Some ErrConcurrentTransaction, [CallRunInTransaction, CallRunInTransaction]) \<and>
   RunInTransaction
     (exampleClient [Some NativeErrConcurrentTransaction, Some (OtherError ''deadline'')]
        None \<lparr>itEntities = [], itFinal = NativeDone\<rparr>)
     \<lparr>appID = ''app'', ctxNamespace = ''ns'', transaction = None\<rparr>
     (\<lambda>c w. (None, w)) None [] =
   (Some (OtherError ''deadline''), [CallRunInTransaction, CallRunInTransaction]) \<and>
   RunInTransaction
     (exampleClient [Some NativeErrConcurrentTransaction, Some ErrConcurrentTransaction,
                     Some NativeErrConcurrentTransaction, None]
        None \<lparr>itEntities = [], itFinal = NativeDone\<rparr>)
     \<lparr>appID = ''app'', ctxNamespace = ''ns'', transaction = None\<rparr>
     (\<lambda>c w. (None, w)) (Some \<lparr>XG = False, Attempts = 0\<rparr>) [] =
   (Some ErrConcurrentTransaction,
    [CallRunInTransaction, CallRunInTransaction, CallRunInTransaction])"
proof -
  let ?bds = "\<lparr>appID = ''app'', ctxNamespace = ''ns'', transaction = None\<rparr>"
  let ?it = "\<lparr>itEntities = [], itFinal = NativeDone\<rparr>"
  let ?fn = "\<lambda>(c::boundDatastore) (w::event list). (None::error option, w)"
  let ?c1 = "exampleClient [Some NativeErrConcurrentTransaction, Some NativeErrConcurrentTransaction]
        None ?it"
  let ?c2 = "exampleClient [Some NativeErrConcurrentTransaction, Some (OtherError ''deadline'')]
        None ?it"
  let ?c3 = "exampleClient [Some NativeErrConcurrentTransaction, Some ErrConcurrentTransaction,
        Some NativeErrConcurrentTransaction, None] None ?it"
  let ?o1 = "Some \<lparr>XG = False, Attempts = 2\<rparr>"
  let ?o3 = "Some \<lparr>XG = False, Attempts = 0\<rparr>"
  have t: "transaction ?bds = None" by simp
  have x1: "\<not> crossGroup ?o1" and x2: "\<not> crossGroup None" and x3: "\<not> crossGroup ?o3"
    by (simp_all add: crossGroup_def)
  have b1: "attemptBound ?o1 = Suc (Suc 0)" and b2: "attemptBound None = Suc (Suc (Suc 0))"
    and b3: "attemptBound ?o3 = Suc (Suc (Suc 0))"
    by (simp_all add: attemptBound_def)
  have w3: "worldAfter ?c3 ?bds ?fn (Suc 0) [] = [CallRunInTransaction]"
    "worldAfter ?c3 ?bds ?fn (Suc (Suc 0)) [] = [CallRunInTransaction, CallRunInTransaction]"
    "worldAfter ?c3 ?bds ?fn (Suc (Suc (Suc 0))) [] =
       [CallRunInTransaction, CallRunInTransaction, CallRunInTransaction]"
    by (simp_all add: worldAfter_def attempt_def exampleClient_def)
  have w1: "worldAfter ?c1 ?bds ?fn (Suc 0) [] = [CallRunInTransaction]"
    "worldAfter ?c1 ?bds ?fn (Suc (Suc 0)) [] = [CallRunInTransaction, CallRunInTransaction]"
    "worldAfter ?c2 ?bds ?fn (Suc 0) [] = [CallRunInTransaction]"
    "worldAfter ?c2 ?bds ?fn (Suc (Suc 0)) [] = [CallRunInTransaction, CallRunInTransaction]"
    by (simp_all add: worldAfter_def attempt_def exampleClient_def)
  have w0: "worldAfter c ?bds ?fn 0 [] = []" for c :: "event list Client"
    by (simp add: worldAfter_def)
  have r1: "attemptResult ?c1 ?bds ?fn [] 0 = Some ErrConcurrentTransaction"
    "attemptResult ?c1 ?bds ?fn [] (Suc 0) = Some ErrConcurrentTransaction"
    "attemptResult ?c2 ?bds ?fn [] 0 = Some ErrConcurrentTransaction"
    "attemptResult ?c2 ?bds ?fn [] (Suc 0) = Some (OtherError ''deadline'')"
    unfolding attemptResult_def w1 w0
    by (simp_all add: attempt_def exampleClient_def)
  have r3: "attemptResult ?c3 ?bds ?fn [] 0 = Some ErrConcurrentTransaction"
    "attemptResult ?c3 ?bds ?fn [] (Suc 0) = Some ErrConcurrentTransaction"
    "attemptResult ?c3 ?bds ?fn [] (Suc (Suc 0)) = Some ErrConcurrentTransaction"
    unfolding attemptResult_def w3 w0
    by (simp_all add: attempt_def exampleClient_def)
  from transaction_retry [OF t x1, of ?c1 ?fn "[]"] transaction_retry [OF t x2, of ?c2 ?fn "[]"]
    transaction_retry [OF t x3, of ?c3 ?fn "[]"]
  show ?thesis
    unfolding b1 b2 b3 by (simp add: less_Suc_eq r1 r3 w1 w3)
qed

theorem transaction_rejected_witness:
  "RunInTransaction (exampleClient [] None \<lparr>itEntities = [], itFinal = NativeDone\<rparr>)
     \<lparr>appID = ''app'', ctxNamespace = ''ns'', transaction = Some 1\<rparr>
     (\<lambda>c w. (None, w)) None [] =
   (Some (ErrorsNew ''nested transactions are not supported''), []) \<and>
   RunInTransaction (exampleClient [] None \<lparr>itEntities = [], itFinal = NativeDone\<rparr>)
     \<lparr>appID = ''app'', ctxNamespace = ''ns'', transaction = None\<rparr>
     (\<lambda>c w. (None, w)) (Some \<lparr>XG = True, Attempts = 5\<rparr>) [] =
   (Some (ErrorsNew ''cross-group transactions are not supported''), [])"
proof -
  let ?client = "exampleClient [] None \<lparr>itEntities = [], itFinal = NativeDone\<rparr>"
  let ?fn = "\<lambda>(c::boundDatastore) (w::event list). (None::error option, w)"
  have a: "transaction \<lparr>appID = ''app'', ctxNamespace = ''ns'', transaction = Some 1\<rparr> \<noteq> None \<or>
      crossGroup None" by simp
  have b: "transaction \<lparr>appID = ''app'', ctxNamespace = ''ns'', transaction = None\<rparr> \<noteq> None \<or>
      crossGroup (Some \<lparr>XG = True, Attempts = 5\<rparr>)" by (simp add: crossGroup_def)
  from transaction_rejected [OF a, of ?client ?fn "[]"]
    transaction_rejected [OF b, of ?client ?fn "[]"]
  show ?thesis by simp
qed

section \<open>Batch operations: how errors reach the callback\<close>

lemma idxLoopNil_callEach:
  "idxLoopNil cb amt i w = callEach (\<lambda>i. cb i None) [i..<amt] w"
proof (induction "amt - i" arbitrary: i w)
  case 0
  then show ?case by (subst idxLoopNil.simps) simp
next
  case (Suc d)
  then have lt: "i < amt" and d: "d = amt - Suc i" by simp_all
  note ih = Suc.hyps(1) [OF d]
  show ?case
    using lt by (subst idxLoopNil.simps)
      (simp add: upt_conv_Cons ih split: prod.splits outcome.splits option.splits)
qed

lemma idxLoopMulti_callEach:
  "idxLoopMulti cb i me w =
     callEach (\<lambda>(i, err). cb i err) (zip [i..<i + length me] (map normalizeError me)) w"
proof (induction me arbitrary: i w)
  case Nil
  then show ?case by simp
next
  case (Cons err me)
  have "[i..<i + length (err # me)] = i # [Suc i..<Suc i + length me]"
    by (simp del: upt_Suc add: upt_conv_Cons)
  then show ?case
    using Cons.IH [of "Suc i"] by (simp split: prod.splits outcome.splits option.splits)
qed

lemma callEach_all_nil:
  "(\<And>x v. x \<in> set xs \<Longrightarrow> fst (f x v) = Returns None) \<Longrightarrow>
   callEach f xs w = (Returns None, fold (\<lambda>x v. snd (f x v)) xs w)"
proof (induction xs arbitrary: w)
  case Nil
  then show ?case by simp
next
  case (Cons x xs)
  from Cons.prems [of x w] have "fst (f x w) = Returns None" by simp
  then obtain w' where fx: "f x w = (Returns None, w')" by (cases "f x w") auto
  with Cons.IH [of w'] Cons.prems show ?case by simp
qed

text \<open>
  The three cases of \<^verbatim>\<open>idxCallbacker\<close>. For an aggregate error the callback is run on
  the entries of the aggregate in the order of their indices, each time with the index
  and the normalised error of the entry, up to the first run that returns an error or
  panics. For any other error the callback is not run and the normalised error is
  returned. Without error the callback is run with nil on every index below the amount.
\<close>

lemma idxCallbacker_errors:
  "(\<forall>me. err = NativeMultiError me \<or> err = MultiError me \<longrightarrow>
      idxCallbacker (Some err) amt cb w =
        callEach (\<lambda>(i, e). cb i e) (zip [0..<length me] (map normalizeError me)) w) \<and>
   ((\<forall>me. err \<noteq> NativeMultiError me \<and> err \<noteq> MultiError me) \<longrightarrow>
      idxCallbacker (Some err) amt cb w = (Returns (normalizeError (Some err)), w)) \<and>
   idxCallbacker None amt cb w = callEach (\<lambda>i. cb i None) [0..<amt] w"
proof -
  have a: "idxCallbacker (Some err) amt cb w =
      callEach (\<lambda>(i, e). cb i e) (zip [0..<length me] (map normalizeError me)) w"
    if "err = NativeMultiError me \<or> err = MultiError me" for me
    using that idxLoopMulti_callEach [of cb 0 me w] by (auto simp: idxCallbacker_def)
  have b: "idxCallbacker (Some err) amt cb w = (Returns (normalizeError (Some err)), w)"
    if "\<forall>me. err \<noteq> NativeMultiError me \<and> err \<noteq> MultiError me"
    using that by (cases err) (simp_all add: idxCallbacker_def)
  have c: "idxCallbacker None amt cb w = callEach (\<lambda>i. cb i None) [0..<amt] w"
    by (simp add: idxCallbacker_def idxLoopNil_callEach)
  from a b c show ?thesis by blast
qed

lemma idxCallbacker_errors_example:
  "idxCallbacker (Some (NativeMultiError [None, Some NativeErrNoSuchEntity, None])) 3
     (\<lambda>i e log. (Returns None, log @ [ItemCallback i e])) [] =
   (Returns None,
    [ItemCallback 0 None, ItemCallback 1 (Some ErrNoSuchEntity), ItemCallback 2 None]) \<and>
   idxCallbacker (Some (OtherError ''rpc failed'')) 3
     (\<lambda>i e log. (Returns None, log @ [ItemCallback i e])) [] =
   (Returns (Some (OtherError ''rpc failed'')), [])"
proof -
  let ?cb = "\<lambda>i e (log::event list). (Returns (None::error option), log @ [ItemCallback i e])"
  have u: "[0..<3] = [0, Suc 0, Suc (Suc 0)]" by (simp add: upt_conv_Cons)
  from idxCallbacker_errors [of "NativeMultiError [None, Some NativeErrNoSuchEntity, None]" 3 ?cb "[]"]
    idxCallbacker_errors [of "OtherError ''rpc failed''" 3 ?cb "[]"]
  show ?thesis by (simp add: u)
qed

text \<open>
  The claim as stated fails for a single error of the backend: with three items the
  callback is not run once, and the error is the result of the operation.
\<close>

theorem batch_errors_counterexample:
  "idxCallbacker (Some NativeErrInvalidKey) 3
     (\<lambda>i e log. (Returns None, log @ [ItemCallback i e])) [] =
   (Returns (Some ErrInvalidKey), []) \<and>
   DeleteMulti
     (exampleClient [] (Some NativeErrInvalidKey) \<lparr>itEntities = [], itFinal = NativeDone\<rparr>)
     \<lparr>appID = ''app'', ctxNamespace = ''ns'', transaction = None\<rparr>
     [\<lparr>keyAppID = ''app'', keyNamespace = ''ns'',
       keyToks = [\<lparr>tokKind = ''Kind'', tokIntID = 1, tokStringID = ''''\<rparr>]\<rparr>,
      \<lparr>keyAppID = ''app'', keyNamespace = ''ns'',
       keyToks = [\<lparr>tokKind = ''Kind'', tokIntID = 2, tokStringID = ''''\<rparr>]\<rparr>]
     (\<lambda>e log. (Returns None, log @ [ItemCallback 0 e])) [] =
   (Returns (Some ErrInvalidKey),
    [CallDeleteMulti
       [Some (NativeKey ''Kind'' 1 '''' None ''ns''), Some (NativeKey ''Kind'' 2 '''' None ''ns'')]])"
  by (simp add: idxCallbacker_def DeleteMulti_def exampleClient_def gaeKeysToNative_def
      gaeKeyToNative_def NewKey_def)

lemma DeleteMulti_single_error:
  assumes "\<forall>me. err \<noteq> NativeMultiError me \<and> err \<noteq> MultiError me"
    and "(case transaction bds of
            Some tx \<Rightarrow> txDeleteMulti client tx (gaeKeysToNative bds keys) w
          | None \<Rightarrow> clientDeleteMulti client (gaeKeysToNative bds keys) w) = (Some err, w')"
  shows "DeleteMulti client bds keys cb w = (Returns (normalizeError (Some err)), w')"
  using assms by (cases err) (simp_all add: DeleteMulti_def idxCallbacker_def)

lemma GetMulti_single_error:
  assumes "\<forall>me. err \<noteq> NativeMultiError me \<and> err \<noteq> MultiError me"
    and "(case transaction bds of
            Some tx \<Rightarrow> txGetMulti client tx (gaeKeysToNative bds keys)
                         (map (\<lambda>_. mkNPLS bds None) (gaeKeysToNative bds keys)) w
          | None \<Rightarrow> clientGetMulti client (gaeKeysToNative bds keys)
                      (map (\<lambda>_. mkNPLS bds None) (gaeKeysToNative bds keys)) w) =
         ((ls, Some err), w')"
  shows "GetMulti client bds keys cb w = (Returns (normalizeError (Some err)), w')"
  using assms by (cases err) (simp_all add: GetMulti_def idxCallbacker_def)

lemma PutMulti_single_error:
  assumes "\<forall>me. err \<noteq> NativeMultiError me \<and> err \<noteq> MultiError me"
    and "transaction bds = None"
    and "clientPutMulti client (gaeKeysToNative bds keys) (map (mkNPLS bds) vals) w =
         ((ks, Some err), w')"
  shows "PutMulti client bds keys vals cb w = (Returns (normalizeError (Some err)), w')"
  using assms by (cases err) (simp_all add: PutMulti_def idxCallbacker_def)

section \<open>Saving a property map\<close>

lemma HasPrefix_dollar: "HasPrefix name ''$'' = (take 1 name = ''$'')"
  by (cases name) (auto simp: HasPrefix_def)

lemma saveProps_Inr:
  "(saveProps bds acc entries = Inr props) =
   (\<exists>new. props = acc @ new \<and> list_all2 (encodes bds) (nonMeta entries) new)"
proof (induction entries arbitrary: acc)
  case Nil
  then show ?case by (auto simp: nonMeta_def)
next
  case (Cons e entries)
  obtain name plist where e: "e = (name, plist)" by (cases e)
  show ?case
  proof (cases "take 1 name = ''$''")
    case True
    with e Cons.IH [of acc] show ?thesis
      by (simp add: HasPrefix_dollar nonMeta_def)
  next
    case False
    show ?thesis
    proof (cases "gaePropertyToNative bds name plist")
      case (Inl err)
      with e False show ?thesis
        by (simp add: HasPrefix_dollar nonMeta_def encodes_def list_all2_Cons1)
    next
      case (Inr np)
      with e False Cons.IH [of "acc @ [np]"] show ?thesis
        by (auto simp: HasPrefix_dollar nonMeta_def encodes_def list_all2_Cons1)
    qed
  qed
qed

lemma saveProps_Inl:
  "saveProps bds acc entries = Inl err \<Longrightarrow>
   \<exists>e\<in>set (nonMeta entries). gaePropertyToNative bds (fst e) (snd e) = Inl err"
proof (induction entries arbitrary: acc)
  case Nil
  then show ?case by simp
next
  case (Cons e entries)
  obtain name plist where e: "e = (name, plist)" by (cases e)
  show ?case
  proof (cases "take 1 name = ''$''")
    case True
    with e Cons.prems have "saveProps bds acc entries = Inl err"
      by (simp add: HasPrefix_dollar)
    from Cons.IH [OF this] show ?thesis by (auto simp: nonMeta_def)
  next
    case False
    show ?thesis
    proof (cases "gaePropertyToNative bds name plist")
      case (Inl err')
      with e False Cons.prems show ?thesis
        by (simp add: HasPrefix_dollar nonMeta_def)
    next
      case (Inr np)
      with e False Cons.prems have "saveProps bds (acc @ [np]) entries = Inl err"
        by (simp add: HasPrefix_dollar)
      from Cons.IH [OF this] show ?thesis by (auto simp: nonMeta_def)
    qed
  qed
qed

text \<open>
  Claim C10. \<^verbatim>\<open>Save\<close> returns native properties exactly when they are, in the order
  the map is visited, the encodings of the entries whose name does not begin with
  \<^verbatim>\<open>$\<close>: every entry with such a name is left out and every other entry is encoded.
  \<^verbatim>\<open>Save\<close> fails only with the error of one of those encodings. A nil or empty map
  is saved as no native properties.
\<close>

theorem save_strips_meta:
  "((Save npls = Inr props) =
      list_all2 (encodes (nplsBds npls)) (nonMeta (entriesOf (pmap npls))) props) \<and>
   (Save npls = Inl err \<longrightarrow>
      (\<exists>e\<in>set (nonMeta (entriesOf (pmap npls))).
         gaePropertyToNative (nplsBds npls) (fst e) (snd e) = Inl err)) \<and>
   (pmap npls = None \<or> pmap npls = Some [] \<longrightarrow> Save npls = Inr [])"
proof -
  have a: "(Save npls = Inr props) =
      list_all2 (encodes (nplsBds npls)) (nonMeta (entriesOf (pmap npls))) props"
  proof (cases "pmapLen (pmap npls) = 0")
    case True
    then have "entriesOf (pmap npls) = []"
      by (auto simp: pmapLen_def entriesOf_def split: option.splits)
    with True show ?thesis by (auto simp: Save_def nonMeta_def)
  next
    case False
    then show ?thesis
      by (simp add: Save_def saveProps_Inr entriesOf_def)
  qed
  have b: "\<exists>e\<in>set (nonMeta (entriesOf (pmap npls))).
      gaePropertyToNative (nplsBds npls) (fst e) (snd e) = Inl err"
    if "Save npls = Inl err"
    using that saveProps_Inl [of "nplsBds npls" "[]" "entriesOf (pmap npls)" err]
    by (auto simp: Save_def entriesOf_def split: if_splits)
  have c: "Save npls = Inr []" if "pmap npls = None \<or> pmap npls = Some []"
    using that by (auto simp: Save_def pmapLen_def)
  from a b c show ?thesis by blast
qed

theorem save_strips_meta_witness:
  "Save \<lparr>nplsBds = \<lparr>appID = ''app'', ctxNamespace = ''ns'', transaction = None\<rparr>,
         pmap = Some [(''$kind'', [\<lparr>propData = PVString ''Model'', indexSetting = ShouldIndex\<rparr>]),
                      (''Name'', [\<lparr>propData = PVString ''x'', indexSetting = NoIndex\<rparr>]),
                      (''$id'', [\<lparr>propData = PVInt 4, indexSetting = ShouldIndex\<rparr>]),
                      (''Count'', [\<lparr>propData = PVInt 1, indexSetting = ShouldIndex\<rparr>])]\<rparr> =
   Inr [\<lparr>npName = ''Name'', npValue = GoString ''x'', npNoIndex = True\<rparr>,
        \<lparr>npName = ''Count'', npValue = GoInt64 1, npNoIndex = False\<rparr>] \<and>
   Save \<lparr>nplsBds = \<lparr>appID = ''app'', ctxNamespace = ''ns'', transaction = None\<rparr>,
         pmap = None\<rparr> = Inr []"
proof -
  let ?bds = "\<lparr>appID = ''app'', ctxNamespace = ''ns'', transaction = None\<rparr>"
  let ?l = "\<lparr>nplsBds = ?bds,
         pmap = Some [(''$kind'', [\<lparr>propData = PVString ''Model'', indexSetting = ShouldIndex\<rparr>]),
                      (''Name'', [\<lparr>propData = PVString ''x'', indexSetting = NoIndex\<rparr>]),
                      (''$id'', [\<lparr>propData = PVInt 4, indexSetting = ShouldIndex\<rparr>]),
                      (''Count'', [\<lparr>propData = PVInt 1, indexSetting = ShouldIndex\<rparr>])]\<rparr>"
  let ?props = "[\<lparr>npName = ''Name'', npValue = GoString ''x'', npNoIndex = True\<rparr>,
        \<lparr>npName = ''Count'', npValue = GoInt64 1, npNoIndex = False\<rparr>]"
  have enc: "list_all2 (encodes ?bds) (nonMeta (entriesOf (pmap ?l))) ?props"
    by (simp add: nonMeta_def entriesOf_def encodes_def gaePropertyToNative_def
        gaeValueToNative_def Property_Type_def Property_Value_def)
  from save_strips_meta [of ?l ?props Stop] enc
    save_strips_meta [of "\<lparr>nplsBds = ?bds, pmap = None\<rparr>" "[]" Stop]
  show ?thesis by simp
qed

section \<open>Queries\<close>

text \<open>The steps of the native query other than its own leave a part of the query as it is.\<close>

lemma fold_keeps:
  "(\<And>x nq. P (g x nq) = P nq) \<Longrightarrow> P (fold g xs nq) = P nq"
  by (induction xs arbitrary: nq) simp_all

lemma applyIf_keeps: "(\<And>nq. P (f nq) = P nq) \<Longrightarrow> P (applyIf c f nq) = P nq"
  by (simp add: applyIf_def)

lemma applySome_keeps: "(\<And>x nq. P (f x nq) = P nq) \<Longrightarrow> P (applySome v f nq) = P nq"
  by (simp add: applySome_def split: option.splits)

lemma filters_keep:
  assumes "\<And>s v nq. P (Query_Filter s v nq) = P nq"
  shows "P (fold (\<lambda>(field, props).
       fold (\<lambda>prop. Query_Filter (field @ '' ='') (nativeFilter bds prop)) props) fs nq) = P nq"
    and "P (ineqFilter bds b nq) = P nq"
proof -
  show "P (fold (\<lambda>(field, props).
       fold (\<lambda>prop. Query_Filter (field @ '' ='') (nativeFilter bds prop)) props) fs nq) = P nq"
    by (rule fold_keeps) (auto intro!: fold_keeps assms)
  show "P (ineqFilter bds b nq) = P nq"
    by (cases b) (simp add: ineqFilter_def applyIf_def assms)
qed

lemma orders_keep:
  assumes "\<And>s nq. P (Query_Order s nq) = P nq"
  shows "P (fold (\<lambda>ic. Query_Order (f ic)) os nq) = P nq"
  by (rule fold_keeps) (rule assms)

lemma prepareNativeQuery_keysOnly:
  assumes "prepareNativeQuery bds q = Returns nq"
  shows "nqKeysOnly nq = fqKeysOnly q"
proof -
  note keep = filters_keep [where P = nqKeysOnly] orders_keep [where P = nqKeysOnly]
    applyIf_keeps [where P = nqKeysOnly] applySome_keeps [where P = nqKeysOnly]
  have f: "nqKeysOnly (Query_Filter s v n) = nqKeysOnly n" for s v n
    by (simp add: Query_Filter_def)
  have o: "nqKeysOnly (Query_Order s n) = nqKeysOnly n" for s n
    by (simp add: Query_Order_def)
  have others: "nqKeysOnly (Query_Transaction tx n) = nqKeysOnly n"
    "nqKeysOnly (Query_Start c n) = nqKeysOnly n" "nqKeysOnly (Query_End c n) = nqKeysOnly n"
    "nqKeysOnly (Query_Distinct n) = nqKeysOnly n" "nqKeysOnly (Query_Limit i n) = nqKeysOnly n"
    "nqKeysOnly (Query_Offset i n) = nqKeysOnly n" "nqKeysOnly (Query_Project ps n) = nqKeysOnly n"
    "nqKeysOnly (Query_Ancestor k n) = nqKeysOnly n"
    "nqKeysOnly (Query_EventualConsistency n) = nqKeysOnly n" for tx c i ps k n
    by (simp_all add: Query_Transaction_def Query_Start_def Query_End_def Query_Distinct_def
        Query_Limit_def Query_Offset_def Query_Project_def Query_Ancestor_def
        Query_EventualConsistency_def)
  have k: "nqKeysOnly (applyIf c Query_KeysOnly n) = (c \<or> nqKeysOnly n)" for c n
    by (simp add: applyIf_def Query_KeysOnly_def)
  from assms show ?thesis
    unfolding prepareNativeQuery_def
    by (auto simp: keep f o others k NewQuery_def split: outcome.splits)
qed

lemma prepareNativeQuery_limit:
  assumes "prepareNativeQuery bds q = Returns nq"
  shows "nqLimit nq = fqLimit q"
proof -
  note keep = filters_keep [where P = nqLimit] orders_keep [where P = nqLimit]
    applyIf_keeps [where P = nqLimit] applySome_keeps [where P = nqLimit]
  have f: "nqLimit (Query_Filter s v n) = nqLimit n" for s v n
    by (simp add: Query_Filter_def)
  have o: "nqLimit (Query_Order s n) = nqLimit n" for s n
    by (simp add: Query_Order_def)
  have others: "nqLimit (Query_Transaction tx n) = nqLimit n"
    "nqLimit (Query_Start c n) = nqLimit n" "nqLimit (Query_End c n) = nqLimit n"
    "nqLimit (Query_Distinct n) = nqLimit n" "nqLimit (Query_KeysOnly n) = nqLimit n"
    "nqLimit (Query_Offset i n) = nqLimit n" "nqLimit (Query_Project ps n) = nqLimit n"
    "nqLimit (Query_Ancestor k n) = nqLimit n"
    "nqLimit (Query_EventualConsistency n) = nqLimit n" for tx c i ps k n
    by (simp_all add: Query_Transaction_def Query_Start_def Query_End_def Query_Distinct_def
        Query_KeysOnly_def Query_Offset_def Query_Project_def Query_Ancestor_def
        Query_EventualConsistency_def)
  have k: "nqLimit (applySome l Query_Limit n) = (case l of None \<Rightarrow> nqLimit n | Some x \<Rightarrow> Some x)"
    for l n
    by (simp add: applySome_def Query_Limit_def split: option.splits)
  from assms show ?thesis
    unfolding prepareNativeQuery_def
    by (auto simp: keep f o others k NewQuery_def split: outcome.splits option.splits)
qed

text \<open>
  For a query that is not keys-only, whose results all decode, \<^verbatim>\<open>Run\<close> runs the
  callback over the decoded results in order: it returns nil when the callback stops
  the iteration and when the iterator reports the end of the results.
\<close>

lemma runLoop_decoded:
  "list_all2 (decodes bds) entities results \<Longrightarrow>
   runLoop bds False False cb entities final w =
     runResult final (callEach (\<lambda>(key, pm). cb key pm) results w)"
proof (induction entities results arbitrary: w rule: list_all2_induct)
  case Nil
  then show ?case by (simp add: runResult_def)
next
  case (Cons e entities r results)
  obtain nativeKey props where e: "e = (nativeKey, props)" by (cases e)
  obtain key pm where r: "r = (key, pm)" by (cases r)
  from Cons.hyps(1) e r obtain ls where
    k: "nativeKeyToGAE bds nativeKey = Returns key"
    and l: "Load (mkNPLS bds None) props = Returns (None, ls)" and p: "pmap ls = pm"
    by (auto simp: decodes_def split: outcome.splits prod.splits option.splits)
  have le: "loadEntity (Some (mkNPLS bds None)) False props = Returns (None, Some ls)"
    using l by (simp add: loadEntity_def)
  show ?case
  proof (cases "cb key pm w")
    case (Pair res w')
    show ?thesis
    proof (cases res)
      case (Panics msg)
      with Pair e r k le p show ?thesis by (simp add: runResult_def)
    next
      case (Returns err)
      show ?thesis
      proof (cases err)
        case None
        with Returns Pair e r k le p Cons.IH [of w'] show ?thesis by simp
      next
        case (Some x)
        with Returns Pair e r k le p show ?thesis by (simp add: runResult_def)
      qed
    qed
  qed
qed

lemma Run_decoded:
  assumes "\<not> fqKeysOnly q" and "prepareNativeQuery bds q = Returns nq"
    and "list_all2 (decodes bds) (itEntities (clientRun client nq w)) results"
  shows "Run client bds q cb w =
    runResult (itFinal (clientRun client nq w)) (callEach (\<lambda>(key, pm). cb key pm) results w)"
  using assms prepareNativeQuery_keysOnly [OF assms(2)] runLoop_decoded [OF assms(3)]
  by (simp add: Run_def Let_def)

lemma Run_stop:
  assumes "\<not> fqKeysOnly q" and "prepareNativeQuery bds q = Returns nq"
    and "list_all2 (decodes bds) (itEntities (clientRun client nq w)) results"
    and "callEach (\<lambda>(key, pm). cb key pm) results w = (Returns (Some Stop), w')"
  shows "Run client bds q cb w = (Returns None, w')"
  using Run_decoded [OF assms(1-3), of cb] assms(4) by (simp add: runResult_def)

lemma Run_done:
  assumes "\<not> fqKeysOnly q" and "prepareNativeQuery bds q = Returns nq"
    and "list_all2 (decodes bds) (itEntities (clientRun client nq w)) results"
    and "itFinal (clientRun client nq w) = NativeDone"
    and "callEach (\<lambda>(key, pm). cb key pm) results w = (Returns None, w')"
  shows "Run client bds q cb w = (Returns None, w')"
  using Run_decoded [OF assms(1-3), of cb] assms(4,5) by (simp add: runResult_def nextError_def)

text \<open>
  Claim C9, against the code. For a keys-only query whose iterator has a result, \<^verbatim>\<open>Run\<close>
  does not reach the callback: no load-saver is allocated, and reading its property map
  for the first result dereferences the nil pointer. The call panics and the world is
  as it was.
\<close>

theorem keys_only_run_panics:
  assumes "fqKeysOnly q" and "prepareNativeQuery bds q = Returns nq"
    and "itEntities (clientRun client nq w) \<noteq> []"
  shows "\<exists>msg. Run client bds q cb w = (Panics msg, w)"
proof -
  from assms(3) obtain nativeKey props rest where
    es: "itEntities (clientRun client nq w) = (nativeKey, props) # rest"
    by (cases "itEntities (clientRun client nq w)") auto
  have ko: "nqKeysOnly nq" using prepareNativeQuery_keysOnly [OF assms(2)] assms(1) by simp
  have le: "loadEntity None True props = Returns (None, None)"
    by (simp add: loadEntity_def)
  show ?thesis
    using assms(1,2) es ko le
    by (cases "nativeKeyToGAE bds nativeKey") (simp_all add: Run_def Let_def)
qed

lemmas run_eval =
  Run_def prepareNativeQuery_def cursorBound_def applyIf_def applySome_def NewQuery_def
  Query_KeysOnly_def Query_Limit_def exampleClient_def exampleQuery_def exampleEntity_def
  exampleScope_def exampleKey_def loadEntity_def Load_def mkNPLS_def clonePropertyMap_def
  nativePropertyToGAE_def nativeValuesOf_def Property_SetValue_def zeroProperty_def
  pmapAppend_def nativeKeyToGAE_def NewKeyToks_def reverseToks_rev

theorem keys_only_run_panics_witness:
  "\<exists>msg. Run (exampleClient [] None \<lparr>itEntities = [exampleEntity 1], itFinal = NativeDone\<rparr>)
           (exampleScope None) (exampleQuery True None)
           (\<lambda>key pm log. (Returns None, log @ [ResultCallback key pm])) [] =
         (Panics msg, [])"
proof -
  let ?client = "exampleClient [] None \<lparr>itEntities = [exampleEntity 1], itFinal = NativeDone\<rparr>"
  let ?nq = "Query_KeysOnly (NewQuery ''Kind'')"
  have k: "fqKeysOnly (exampleQuery True None)" by (simp add: exampleQuery_def)
  have p: "prepareNativeQuery (exampleScope None) (exampleQuery True None) = Returns ?nq"
    by (simp add: prepareNativeQuery_def cursorBound_def applyIf_def applySome_def
        exampleQuery_def exampleScope_def)
  have e: "itEntities (clientRun ?client ?nq []) \<noteq> []"
    by (simp add: exampleClient_def Query_KeysOnly_def NewQuery_def)
  from keys_only_run_panics [OF k p e] show ?thesis .
qed

text \<open>
  Claim C8, against the code. A keys-only query with a limit of 3 over 5 matching
  entities: the iterator hands out the first key, and \<^verbatim>\<open>Run\<close> panics on the nil
  load-saver before the callback is run once. The two examples after it are the same
  query without the keys-only flag, where the callback is run 3 times and \<^verbatim>\<open>Run\<close>
  returns nil, and a query whose callback stops the iteration at its second run.
\<close>

theorem run_limit_keys_only:
  "Run (exampleClient [] None
          \<lparr>itEntities = map exampleEntity [1, 2, 3, 4, 5], itFinal = NativeDone\<rparr>)
     (exampleScope None) (exampleQuery True (Some 3))
     (\<lambda>key pm log. (Returns None, log @ [ResultCallback key pm])) [] =
   (Panics ''nil pointer dereference'', [])"
  by (simp add: run_eval)

lemma run_limit_example:
  "Run (exampleClient [] None
          \<lparr>itEntities = map exampleEntity [1, 2, 3, 4, 5], itFinal = NativeDone\<rparr>)
     (exampleScope None) (exampleQuery False (Some 3))
     (\<lambda>key pm log. (Returns None, log @ [ResultCallback key pm])) [] =
   (Returns None,
    [ResultCallback (exampleKey 1)
       (Some [(''Value'', [\<lparr>propData = PVInt 1, indexSetting = ShouldIndex\<rparr>])]),
     ResultCallback (exampleKey 2)
       (Some [(''Value'', [\<lparr>propData = PVInt 2, indexSetting = ShouldIndex\<rparr>])]),
     ResultCallback (exampleKey 3)
       (Some [(''Value'', [\<lparr>propData = PVInt 3, indexSetting = ShouldIndex\<rparr>])])])"
  by (simp add: run_eval nextError_def)

lemma run_stop_example:
  "Run (exampleClient [] None
          \<lparr>itEntities = map exampleEntity [1, 2, 3, 4, 5], itFinal = NativeDone\<rparr>)
     (exampleScope None) (exampleQuery False None)
     (\<lambda>key pm log. (Returns (if length log = 1 then Some Stop else None),
                     log @ [ResultCallback key pm])) [] =
   (Returns None,
    [ResultCallback (exampleKey 1)
       (Some [(''Value'', [\<lparr>propData = PVInt 1, indexSetting = ShouldIndex\<rparr>])]),
     ResultCallback (exampleKey 2)
       (Some [(''Value'', [\<lparr>propData = PVInt 2, indexSetting = ShouldIndex\<rparr>])])])"
  by (simp add: run_eval nextError_def)

section \<open>The transactional write\<close>

lemma findIncomplete_result:
  assumes "\<forall>k\<in>set ks. k \<noteq> None"
  shows "findIncomplete i ks inc m =
    Returns (inc @ filter isIncomplete ks,
      (\<lambda>j. if length inc \<le> j \<and> j < length inc + length (incompletePositions i ks)
           then Some (incompletePositions i ks ! (j - length inc)) else m j))"
  using assms
proof (induction ks arbitrary: i inc m)
  case Nil
  then show ?case by (auto simp: fun_eq_iff)
next
  case (Cons k ks)
  from Cons.prems obtain nk where k: "k = Some nk" and rest: "\<forall>k\<in>set ks. k \<noteq> None"
    by auto
  show ?case
  proof (cases "nkIncomplete nk")
    case True
    then have ik: "isIncomplete k" using k by (simp add: isIncomplete_def)
    have step: "findIncomplete i (k # ks) inc m =
        findIncomplete (Suc i) ks (inc @ [k]) (m(length inc \<mapsto> i))"
      using True k by simp
    have pos: "incompletePositions i (k # ks) = i # incompletePositions (Suc i) ks"
      and fil: "inc @ filter isIncomplete (k # ks) = (inc @ [k]) @ filter isIncomplete ks"
      using ik by simp_all
    have eq: "(\<lambda>j. if length (inc @ [k]) \<le> j \<and>
                  j < length (inc @ [k]) + length (incompletePositions (Suc i) ks)
               then Some (incompletePositions (Suc i) ks ! (j - length (inc @ [k])))
               else (m(length inc \<mapsto> i)) j) =
          (\<lambda>j. if length inc \<le> j \<and>
                  j < length inc + length (i # incompletePositions (Suc i) ks)
               then Some ((i # incompletePositions (Suc i) ks) ! (j - length inc)) else m j)"
      by (auto simp: fun_eq_iff nth_Cons')
    show ?thesis
      unfolding step pos fil Cons.IH [OF rest, of "Suc i" "inc @ [k]" "m(length inc \<mapsto> i)"] eq
      by (rule refl)
  next
    case False
    then have ik: "\<not> isIncomplete k" using k by (simp add: isIncomplete_def)
    have step: "findIncomplete i (k # ks) inc m = findIncomplete (Suc i) ks inc m"
      using False k by simp
    have pos: "incompletePositions i (k # ks) = incompletePositions (Suc i) ks"
      and fil: "filter isIncomplete (k # ks) = filter isIncomplete ks"
      using ik by simp_all
    show ?thesis
      unfolding step pos fil Cons.IH [OF rest, of "Suc i" inc m] by (rule refl)
  qed
qed

lemma length_incompletePositions:
  "length (incompletePositions i ks) = length (filter isIncomplete ks)"
  by (induction ks arbitrary: i) simp_all

lemma substituteIDs_updateAt:
  assumes "\<And>j. j < length ps \<Longrightarrow> m j = Some (ps ! j)"
    and "t + length ids \<le> length ps"
  shows "substituteIDs t ids m xs = updateAt (drop t ps) ids xs"
  using assms(2)
proof (induction ids arbitrary: t xs)
  case Nil
  then show ?case by (cases "drop t ps") simp_all
next
  case (Cons idKey ids)
  then have t: "t < length ps" by simp
  then have d: "drop t ps = ps ! t # drop (Suc t) ps"
    by (simp add: Cons_nth_drop_Suc)
  from Cons.prems have "Suc t + length ids \<le> length ps" by simp
  from Cons.IH [OF this] assms(1) [OF t] d show ?case by simp
qed

lemma fillIncomplete_Nil: "fillIncomplete ks [] = ks"
  by (induction ks) simp_all

lemma length_fillIncomplete: "length (fillIncomplete ks ids) = length ks"
  by (induction ks arbitrary: ids) (simp_all split: list.splits)

lemma updateAt_fill:
  "length pre = i \<Longrightarrow>
   updateAt (incompletePositions i ks) ids (pre @ ks) = pre @ fillIncomplete ks ids"
proof (induction ks arbitrary: i pre ids)
  case Nil
  then show ?case by simp
next
  case (Cons k ks)
  have shift: "(pre @ [x]) @ ks = pre @ x # ks" for x by simp
  show ?case
  proof (cases "isIncomplete k")
    case True
    show ?thesis
    proof (cases ids)
      case Nil
      with True show ?thesis by (simp add: fillIncomplete_Nil)
    next
      case (Cons idKey ids')
      have "(pre @ k # ks)[i := idKey] = (pre @ [idKey]) @ ks"
        using Cons.prems by (simp add: list_update_append)
      with True Cons Cons.IH [of "pre @ [idKey]" "Suc i" ids'] Cons.prems
      show ?thesis by simp
    qed
  next
    case False
    with Cons.IH [of "pre @ [k]" "Suc i" ids] Cons.prems show ?thesis by simp
  qed
qed

text \<open>
  The two loops together: the first collects the incomplete keys in their order, the
  second fills them with the allocated keys, when there are as many of these.
\<close>

lemma substitute_fill:
  assumes "\<forall>k\<in>set nks. k \<noteq> None"
    and "length idKeys = length (filter isIncomplete nks)"
  shows "\<exists>m. findIncomplete 0 nks [] Map.empty = Returns (filter isIncomplete nks, m) \<and>
    substituteIDs 0 idKeys m nks = fillIncomplete nks idKeys"
proof -
  let ?ps = "incompletePositions 0 nks"
  let ?m = "\<lambda>j. if j < length ?ps then Some (?ps ! j) else None"
  have f: "findIncomplete 0 nks [] Map.empty = Returns (filter isIncomplete nks, ?m)"
    using findIncomplete_result [OF assms(1), of 0 "[]" Map.empty] by (simp add: fun_eq_iff)
  have "substituteIDs 0 idKeys ?m nks = updateAt (drop 0 ?ps) idKeys nks"
    by (rule substituteIDs_updateAt) (simp_all add: assms(2) length_incompletePositions)
  also have "\<dots> = fillIncomplete nks idKeys"
    using updateAt_fill [of "[]" 0 nks idKeys] by simp
  finally show ?thesis using f by blast
qed

lemma fillIncomplete_nth:
  "i < length ks \<Longrightarrow> length (filter isIncomplete ks) \<le> length ids \<Longrightarrow>
   fillIncomplete ks ids ! i =
     (if isIncomplete (ks ! i) then ids ! length (filter isIncomplete (take i ks)) else ks ! i)"
proof (induction ks arbitrary: i ids)
  case Nil
  then show ?case by simp
next
  case (Cons k ks)
  show ?case
  proof (cases i)
    case 0
    with Cons.prems show ?thesis by (cases ids) auto
  next
    case (Suc j)
    with Cons.prems Cons.IH [of j ids] Cons.IH [of j "tl ids"] show ?thesis
      by (cases ids) auto
  qed
qed

lemma gaeKeysToNative_Some:
  assumes "\<forall>k\<in>set keys. keyToks k \<noteq> []"
  shows "\<forall>nk\<in>set (gaeKeysToNative bds keys). nk \<noteq> None"
  using assms gaeKeyToNative_Some [of _ bds] by (fastforce simp: gaeKeysToNative_def)

lemma fillIncomplete_set:
  "length (filter isIncomplete ks) \<le> length ids \<Longrightarrow>
   set (fillIncomplete ks ids) \<subseteq> {k \<in> set ks. \<not> isIncomplete k} \<union> set ids"
proof (induction ks arbitrary: ids)
  case Nil
  then show ?case by simp
next
  case (Cons k ks)
  show ?case
  proof (cases "isIncomplete k")
    case True
    with Cons.prems obtain idKey ids' where ids: "ids = idKey # ids'" by (cases ids) auto
    with True Cons.prems Cons.IH [of ids'] show ?thesis by auto
  next
    case False
    with Cons.prems Cons.IH [of ids] show ?thesis by auto
  qed
qed

lemma collectToks_hd:
  "\<exists>rest. collectToks [] nk =
     \<lparr>tokKind = nkKind nk, tokIntID = nkID nk, tokStringID = nkName nk\<rparr> # rest"
proof (cases nk)
  case (NativeKey kind ident name parent ns)
  then show ?thesis
    by (cases parent) (simp_all add: collectToks_acc [of "[_]"])
qed

lemma nativeKeyToGAE_leaf:
  "\<exists>key. nativeKeyToGAE bds (Some nk) = Returns key \<and>
     leafComplete key = (\<not> nkIncomplete nk)"
proof -
  from collectToks_hd [of nk] obtain rest where
    "collectToks [] nk =
       \<lparr>tokKind = nkKind nk, tokIntID = nkID nk, tokStringID = nkName nk\<rparr> # rest" ..
  then show ?thesis
    by (simp add: nativeKeyToGAE_def NewKeyToks_def reverseToks_rev leafComplete_def
        tokIncomplete_def nkIncomplete_def)
qed

lemma nativeKeysToGAE_all:
  assumes "\<forall>k\<in>set nks. k \<noteq> None \<and> \<not> isIncomplete k"
  shows "\<exists>ks. nativeKeysToGAE bds nks = Returns ks \<and> length ks = length nks \<and>
    list_all leafComplete ks \<and>
    (\<forall>i<length nks. nativeKeyToGAE bds (nks ! i) = Returns (ks ! i))"
  using assms
proof (induction nks)
  case Nil
  then show ?case by simp
next
  case (Cons k nks)
  from Cons.prems obtain nk where k: "k = Some nk" and c: "\<not> nkIncomplete nk"
    by (auto simp: isIncomplete_def)
  from nativeKeyToGAE_leaf [of bds nk] c obtain key where
    key: "nativeKeyToGAE bds (Some nk) = Returns key" "leafComplete key" by auto
  from Cons.IH Cons.prems obtain ks where
    ks: "nativeKeysToGAE bds nks = Returns ks" "length ks = length nks"
      "list_all leafComplete ks"
      "\<forall>i<length nks. nativeKeyToGAE bds (nks ! i) = Returns (ks ! i)"
    by auto
  have "\<forall>i<length (k # nks). nativeKeyToGAE bds ((k # nks) ! i) = Returns ((key # ks) ! i)"
    using k key ks(4) by (auto simp: nth_Cons')
  with k key ks show ?case by simp
qed

lemma callEach_cong:
  "(\<And>x v. x \<in> set xs \<Longrightarrow> f x v = g x v) \<Longrightarrow> callEach f xs w = callEach g xs w"
  by (induction xs arbitrary: w) (auto split: prod.splits outcome.splits option.splits)

lemma callEach_map: "callEach f (map h xs) w = callEach (\<lambda>x. f (h x)) xs w"
  by (induction xs arbitrary: w) (auto split: prod.splits outcome.splits option.splits)

lemma callEach_nth: "callEach (\<lambda>i. f (xs ! i)) [0..<length xs] w = callEach f xs w"
proof -
  have "callEach (\<lambda>i. f (xs ! i)) [0..<length xs] w = callEach f (map (\<lambda>i. xs ! i) [0..<length xs]) w"
    by (simp add: callEach_map)
  then show ?thesis by (simp add: map_nth)
qed

lemma put_success:
  assumes "nativeKeysToGAE bds nks = Returns ks" and "length ks = length nks"
    and "\<forall>i<length nks. nativeKeyToGAE bds (nks ! i) = Returns (ks ! i)"
  shows "idxCallbacker None (length nks) (putCallback bds cb nks) w =
    callEach (\<lambda>k. cb (Some k) None) ks w"
proof -
  have "idxCallbacker None (length nks) (putCallback bds cb nks) w =
      callEach (\<lambda>i. putCallback bds cb nks i None) [0..<length nks] w"
    by (simp add: idxCallbacker_def idxLoopNil_callEach)
  also have "\<dots> = callEach (\<lambda>i. cb (Some (ks ! i)) None) [0..<length ks] w"
    unfolding assms(2)
    by (rule callEach_cong) (simp add: putCallback_def assms(3))
  also have "\<dots> = callEach (\<lambda>k. cb (Some k) None) ks w"
    by (rule callEach_nth)
  finally show ?thesis .
qed

text \<open>
  The transactional \<^verbatim>\<open>PutMulti\<close> after the allocation: an error of the allocation is
  returned as it is, without a run of the callback; otherwise the write is made on the
  filled keys and its result goes through \<^verbatim>\<open>idxCallbacker\<close>.
\<close>

lemma PutMulti_transactional:
  assumes tx: "transaction bds = Some tx"
    and keys: "\<forall>k\<in>set keys. keyToks k \<noteq> []"
    and alloc: "allocation client (filter isIncomplete (gaeKeysToNative bds keys)) w =
      ((idKeys, err), w1)"
  shows "err \<noteq> None \<Longrightarrow> PutMulti client bds keys vals cb w = (Returns err, w1)"
    and "err = None \<Longrightarrow> length idKeys = length (filter isIncomplete (gaeKeysToNative bds keys)) \<Longrightarrow>
      PutMulti client bds keys vals cb w =
        (case txPutMulti client tx (fillIncomplete (gaeKeysToNative bds keys) idKeys)
                (map (mkNPLS bds) vals) w1 of
           (err', w2) \<Rightarrow>
             idxCallbacker err' (length keys)
               (putCallback bds cb (fillIncomplete (gaeKeysToNative bds keys) idKeys)) w2)"
proof -
  let ?nks = "gaeKeysToNative bds keys"
  let ?inc = "filter isIncomplete ?nks"
  have some: "\<forall>k\<in>set ?nks. k \<noteq> None" by (rule gaeKeysToNative_Some [OF keys])
  have len: "length ?nks = length keys" by (simp add: gaeKeysToNative_def)
  {
    assume e: "err \<noteq> None"
    with alloc have ne: "?inc \<noteq> []" and a: "clientAllocateIDs client ?inc w = ((idKeys, err), w1)"
      by (auto simp: allocation_def split: if_splits)
    from findIncomplete_result [OF some, of 0 "[]" Map.empty] ne a e tx
    show "PutMulti client bds keys vals cb w = (Returns err, w1)"
      by (simp add: PutMulti_def Let_def)
  }
  {
    assume e: "err = None" and l: "length idKeys = length ?inc"
    from substitute_fill [OF some l] obtain m where
      m: "findIncomplete 0 ?nks [] Map.empty = Returns (?inc, m)"
        "substituteIDs 0 idKeys m ?nks = fillIncomplete ?nks idKeys"
      by blast
    show "PutMulti client bds keys vals cb w =
        (case txPutMulti client tx (fillIncomplete ?nks idKeys) (map (mkNPLS bds) vals) w1 of
           (err', w2) \<Rightarrow>
             idxCallbacker err' (length keys) (putCallback bds cb (fillIncomplete ?nks idKeys)) w2)"
    proof (cases "?inc = []")
      case True
      with alloc l have "idKeys = []" "w1 = w" by (simp_all add: allocation_def)
      with True m tx len show ?thesis
        by (simp add: PutMulti_def Let_def fillIncomplete_Nil)
    next
      case False
      with alloc e have "clientAllocateIDs client ?inc w = ((idKeys, None), w1)"
        by (simp add: allocation_def)
      with False m tx len show ?thesis
        by (simp add: PutMulti_def Let_def length_fillIncomplete)
    qed
  }
qed

text \<open>
  Claim C6. In a transaction, for keys that each have a token: the allocation is called
  on exactly the incomplete native keys, in their order in the input, and only when
  there is one. When it returns as many keys as it was given, all with an identifier,
  the transactional write is called on the input keys with each incomplete key replaced,
  at its own index, by the allocated key of the same rank (\<open>fillIncomplete\<close>, see
  \<open>fillIncomplete_nth\<close>). When the write succeeds, the callback is run with nil, in the
  order of the input, on one key per index, every one of them complete at its leaf; the
  result is that of the first run that does not return nil, or nil.
\<close>

theorem transactional_put:
  assumes "transaction bds = Some tx"
    and "\<forall>k\<in>set keys. keyToks k \<noteq> []"
    and "allocation client (filter isIncomplete (gaeKeysToNative bds keys)) w =
      ((idKeys, None), w1)"
    and "length idKeys = length (filter isIncomplete (gaeKeysToNative bds keys))"
    and "\<forall>k\<in>set idKeys. k \<noteq> None \<and> \<not> isIncomplete k"
    and "txPutMulti client tx (fillIncomplete (gaeKeysToNative bds keys) idKeys)
           (map (mkNPLS bds) vals) w1 = (None, w2)"
  shows "\<exists>ks. nativeKeysToGAE bds (fillIncomplete (gaeKeysToNative bds keys) idKeys) = Returns ks \<and>
    length ks = length keys \<and> list_all leafComplete ks \<and>
    PutMulti client bds keys vals cb w = callEach (\<lambda>k. cb (Some k) None) ks w2"
proof -
  let ?nks = "gaeKeysToNative bds keys"
  let ?filled = "fillIncomplete ?nks idKeys"
  have some: "\<forall>k\<in>set ?nks. k \<noteq> None" by (rule gaeKeysToNative_Some [OF assms(2)])
  have "set ?filled \<subseteq> {k \<in> set ?nks. \<not> isIncomplete k} \<union> set idKeys"
    by (rule fillIncomplete_set) (simp add: assms(4))
  with some assms(5) have "\<forall>k\<in>set ?filled. k \<noteq> None \<and> \<not> isIncomplete k" by blast
  from nativeKeysToGAE_all [OF this, of bds] obtain ks where
    ks: "nativeKeysToGAE bds ?filled = Returns ks" "length ks = length ?filled"
      "list_all leafComplete ks"
      "\<forall>i<length ?filled. nativeKeyToGAE bds (?filled ! i) = Returns (ks ! i)"
    by blast
  have len: "length ?filled = length keys"
    by (simp add: length_fillIncomplete gaeKeysToNative_def)
  have "PutMulti client bds keys vals cb w =
      idxCallbacker None (length ?filled) (putCallback bds cb ?filled) w2"
    using PutMulti_transactional(2) [OF assms(1-3) refl assms(4), of vals cb] assms(6) len
    by simp
  also have "\<dots> = callEach (\<lambda>k. cb (Some k) None) ks w2"
    by (rule put_success [OF ks(1,2,4)])
  finally show ?thesis using ks len by auto
qed

theorem transactional_put_witness:
  "PutMulti (exampleClient [] None \<lparr>itEntities = [], itFinal = NativeDone\<rparr>)
     (exampleScope (Some 7)) [exampleKey 5, exampleKey 0, exampleKey 9, exampleKey 0]
     [None, None, None, None]
     (\<lambda>k e log. (Returns None, log @ [KeyCallback k e])) [] =
   (Returns None,
    [CallAllocateIDs
       [Some (NativeKey ''Kind'' 0 [] None ''ns''), Some (NativeKey ''Kind'' 0 [] None ''ns'')],
     CallTxPutMulti 7
       [Some (NativeKey ''Kind'' 5 [] None ''ns''), Some (NativeKey ''Kind'' 100 [] None ''ns''),
        Some (NativeKey ''Kind'' 9 [] None ''ns''), Some (NativeKey ''Kind'' 101 [] None ''ns'')],
     KeyCallback (Some (exampleKey 5)) None, KeyCallback (Some (exampleKey 100)) None,
     KeyCallback (Some (exampleKey 9)) None, KeyCallback (Some (exampleKey 101)) None])"
proof -
  let ?client = "exampleClient [] None \<lparr>itEntities = [], itFinal = NativeDone\<rparr>"
  let ?bds = "exampleScope (Some 7)"
  let ?keys = "[exampleKey 5, exampleKey 0, exampleKey 9, exampleKey 0]"
  let ?vals = "[None, None, None, None] :: PropertyMap list"
  let ?cb = "\<lambda>k e (log::event list). (Returns (None::error option), log @ [KeyCallback k e])"
  let ?inc = "[Some (NativeKey ''Kind'' 0 [] None ''ns''), Some (NativeKey ''Kind'' 0 [] None ''ns'')]"
  let ?ids = "[Some (NativeKey ''Kind'' 100 [] None ''ns''), Some (NativeKey ''Kind'' 101 [] None ''ns'')]"
  let ?filled = "[Some (NativeKey ''Kind'' 5 [] None ''ns''), Some (NativeKey ''Kind'' 100 [] None ''ns''),
        Some (NativeKey ''Kind'' 9 [] None ''ns''), Some (NativeKey ''Kind'' 101 [] None ''ns'')]"
  let ?w1 = "[CallAllocateIDs ?inc]"
  let ?w2 = "[CallAllocateIDs ?inc, CallTxPutMulti 7 ?filled]"
  have nks: "gaeKeysToNative ?bds ?keys =
      [Some (NativeKey ''Kind'' 5 [] None ''ns''), Some (NativeKey ''Kind'' 0 [] None ''ns''),
       Some (NativeKey ''Kind'' 9 [] None ''ns''), Some (NativeKey ''Kind'' 0 [] None ''ns'')]"
    by (simp add: gaeKeysToNative_def gaeKeyToNative_def NewKey_def exampleKey_def
        exampleScope_def)
  have inc: "filter isIncomplete (gaeKeysToNative ?bds ?keys) = ?inc"
    unfolding nks by (simp add: isIncomplete_def nkIncomplete_def)
  have filled: "fillIncomplete (gaeKeysToNative ?bds ?keys) ?ids = ?filled"
    unfolding nks by (simp add: isIncomplete_def nkIncomplete_def)
  have h1: "transaction ?bds = Some 7" by (simp add: exampleScope_def)
  have h2: "\<forall>k\<in>set ?keys. keyToks k \<noteq> []" by (simp add: exampleKey_def)
  have h3: "allocation ?client (filter isIncomplete (gaeKeysToNative ?bds ?keys)) [] =
      ((?ids, None), ?w1)"
    unfolding inc by (simp add: allocation_def exampleClient_def)
  have h4: "length ?ids = length (filter isIncomplete (gaeKeysToNative ?bds ?keys))"
    unfolding inc by simp
  have h5: "\<forall>k\<in>set ?ids. k \<noteq> None \<and> \<not> isIncomplete k"
    by (simp add: isIncomplete_def nkIncomplete_def)
  have h6: "txPutMulti ?client 7 (fillIncomplete (gaeKeysToNative ?bds ?keys) ?ids)
      (map (mkNPLS ?bds) ?vals) ?w1 = (None, ?w2)"
    unfolding filled by (simp add: exampleClient_def)
  from transactional_put [OF h1 h2 h3 h4 h5 h6, of ?cb] obtain ks where
    a: "nativeKeysToGAE ?bds (fillIncomplete (gaeKeysToNative ?bds ?keys) ?ids) = Returns ks"
    and b: "PutMulti ?client ?bds ?keys ?vals ?cb [] = callEach (\<lambda>k. ?cb (Some k) None) ks ?w2"
    by blast
  have "nativeKeysToGAE ?bds ?filled =
      Returns [exampleKey 5, exampleKey 100, exampleKey 9, exampleKey 101]"
    by (simp add: nativeKeyToGAE_def NewKeyToks_def reverseToks_rev exampleKey_def
        exampleScope_def)
  with a have "ks = [exampleKey 5, exampleKey 100, exampleKey 9, exampleKey 101]"
    unfolding filled by simp
  with b show ?thesis by simp
qed

section \<open>Batch operations: the errors of the batch call\<close>

lemma normalizeError_None: "(normalizeError e = None) = (e = None)"
  by (cases e rule: normalizeError.cases) simp_all

lemma idxCallbacker_distribute:
  "idxCallbacker (Some err) amt cb w =
     distribute err (\<lambda>me. zip [0..<length me] (map normalizeError me)) (\<lambda>(i, e). cb i e) w"
  using idxLoopMulti_callEach [of cb 0 _ w]
  by (cases err) (simp_all add: idxCallbacker_def distribute_def)

lemma callEach_zip_snd:
  "length is = length es \<Longrightarrow> callEach (\<lambda>(i, e). f e) (zip is es) w = callEach f es w"
  by (induction "is" es arbitrary: w rule: list_induct2)
    (auto split: prod.splits outcome.splits option.splits)

lemma zip_nth_upt:
  "length es \<le> length xs \<Longrightarrow> zip xs es = map (\<lambda>(i, e). (xs ! i, e)) (zip [0..<length es] es)"
  by (rule nth_equalityI) simp_all

lemma callEach_zip_index:
  "length es \<le> length xs \<Longrightarrow>
   callEach (\<lambda>(i, e). f (xs ! i) e) (zip [0..<length es] es) w =
   callEach (\<lambda>(x, e). f x e) (zip xs es) w"
  by (simp add: zip_nth_upt [of es xs] callEach_map case_prod_unfold)

lemma DeleteMulti_errors:
  assumes "deleteCall client bds keys w = (Some err, w')"
  shows "DeleteMulti client bds keys cb w = distribute err (map normalizeError) cb w'"
proof -
  have "DeleteMulti client bds keys cb w =
      idxCallbacker (Some err) (length (gaeKeysToNative bds keys)) (\<lambda>_ err. cb err) w'"
    using assms by (simp add: DeleteMulti_def deleteCall_def Let_def)
  then show ?thesis
    by (simp add: idxCallbacker_distribute distribute_def callEach_zip_snd split: option.splits)
qed

lemma GetMulti_errors:
  assumes "getCall client bds keys w = ((ls, Some err), w')" and "aggregateFits err (length ls)"
  shows "GetMulti client bds keys cb w =
    distribute err (\<lambda>me. zip (map pmap ls) (map normalizeError me)) (\<lambda>(pm, e). cb pm e) w'"
proof -
  let ?wrap = "\<lambda>idx err w. if idx < length ls then cb (pmap (ls ! idx)) err w
      else (Panics ''index out of range'', w)"
  have g: "GetMulti client bds keys cb w =
      idxCallbacker (Some err) (length (gaeKeysToNative bds keys)) ?wrap w'"
    using assms(1) by (simp add: GetMulti_def getCall_def Let_def)
  show ?thesis
  proof (cases "aggregateOf err")
    case None
    with g show ?thesis by (simp add: idxCallbacker_distribute distribute_def)
  next
    case (Some me)
    with assms(2) have len: "length (map normalizeError me) \<le> length (map pmap ls)"
      by (simp add: aggregateFits_def)
    have "callEach (\<lambda>(i, e). ?wrap i e) (zip [0..<length me] (map normalizeError me)) w' =
        callEach (\<lambda>(i, e). cb (map pmap ls ! i) e)
          (zip [0..<length me] (map normalizeError me)) w'"
    proof (rule callEach_cong)
      fix x v
      assume x: "x \<in> set (zip [0..<length me] (map normalizeError me))"
      obtain i e where ie: "x = (i, e)" by (cases x)
      with x have "i < length me" by (auto dest: set_zip_leftD)
      with len have "i < length ls" by simp
      with ie show "(case x of (i, e) \<Rightarrow> ?wrap i e) v =
          (case x of (i, e) \<Rightarrow> cb (map pmap ls ! i) e) v"
        by simp
    qed
    also have "\<dots> = callEach (\<lambda>(pm, e). cb pm e) (zip (map pmap ls) (map normalizeError me)) w'"
      using callEach_zip_index [OF len, of cb w'] by simp
    finally show ?thesis
      using g Some by (simp add: idxCallbacker_distribute distribute_def)
  qed
qed

lemma putCallback_errors:
  assumes "keysForNil bds ks err"
  shows "idxCallbacker (Some err) amt (putCallback bds cb ks) w =
    distribute err (putReports bds ks) (\<lambda>(k, e). cb k e) w"
proof (cases "aggregateOf err")
  case None
  then show ?thesis by (simp add: idxCallbacker_distribute distribute_def)
next
  case (Some me)
  have z: "zip [0..<length me] (map normalizeError me) =
      map (\<lambda>(i, e). (i, normalizeError e)) (zip [0..<length me] me)"
    by (simp add: zip_map2)
  have "callEach (\<lambda>(i, e). putCallback bds cb ks i e)
        (zip [0..<length me] (map normalizeError me)) w =
      callEach (\<lambda>(k, e). cb k e) (putReports bds ks me) w"
    unfolding z putReports_def callEach_map
  proof (rule callEach_cong)
    fix x v
    assume x: "x \<in> set (zip [0..<length me] me)"
    obtain i e where ie: "x = (i, e)" by (cases x)
    from assms Some x ie have k: "e \<noteq> None \<or> keyAt bds ks i \<noteq> None"
      by (auto simp: keysForNil_def list_all_iff)
    show "(case case x of (i, e) \<Rightarrow> (i, normalizeError e) of (i, e) \<Rightarrow> putCallback bds cb ks i e) v =
        (case case x of (i, e) \<Rightarrow>
            if e = None then (keyAt bds ks i, None) else (None, normalizeError e) of
          (k, e) \<Rightarrow> cb k e) v"
    proof (cases e)
      case None
      with k obtain key where "i < length ks" "nativeKeyToGAE bds (ks ! i) = Returns key"
        by (auto simp: keyAt_def split: if_splits outcome.splits)
      with None ie show ?thesis by (simp add: putCallback_def keyAt_def)
    next
      case (Some a)
      then have "normalizeError e \<noteq> None" by (simp add: normalizeError_None)
      then obtain y where "normalizeError e = Some y" by auto
      with Some ie show ?thesis by (simp add: putCallback_def)
    qed
  qed
  with Some show ?thesis by (simp add: idxCallbacker_distribute distribute_def)
qed

text \<open>
  Claim C7, as the code has it. For each of the three batch operations: when the batch
  call of the backend returns a single error that is not an aggregate, the callback is
  not run at all, the world stays as the batch call left it and the operation returns
  the error normalised. When the batch call returns an aggregate, the callback is run
  once per entry of the aggregate, in the order of the indices, with the normalised
  error of the entry (nil for an entry without error), up to the first run that returns
  an error or panics; that result, or nil after the last entry, is what the operation
  returns. \<^verbatim>\<open>GetMulti\<close> passes the property map loaded at the index of the entry, for
  an aggregate with at most as many entries as there are items. \<^verbatim>\<open>PutMulti\<close> passes
  no key with an error and, with nil, the key at the index of the entry among the keys
  it holds after the call: the keys the backend returned outside a transaction; inside
  one, the input keys, each with at least one element, filled with the allocated ones,
  the allocation having returned without error one key per incomplete key. This is
  stated for the case that there is a key at every such index.
\<close>

theorem batch_operation_errors:
  "(deleteCall client bds keys w = (Some err, w') \<longrightarrow>
      DeleteMulti client bds keys cbD w = distribute err (map normalizeError) cbD w') \<and>
   (getCall client bds keys w = ((ls, Some err), w') \<and> length ls = length keys \<and>
    aggregateFits err (length keys) \<longrightarrow>
      GetMulti client bds keys cbG w =
        distribute err (\<lambda>me. zip (map pmap ls) (map normalizeError me)) (\<lambda>(pm, e). cbG pm e) w') \<and>
   (transaction bds = None \<and>
    clientPutMulti client (gaeKeysToNative bds keys) (map (mkNPLS bds) vals) w =
      ((ks, Some err), w') \<and>
    keysForNil bds ks err \<longrightarrow>
      PutMulti client bds keys vals cbP w =
        distribute err (putReports bds ks) (\<lambda>(k, e). cbP k e) w') \<and>
   (transaction bds = Some tx \<and> (\<forall>k\<in>set keys. keyToks k \<noteq> []) \<and>
    allocation client (filter isIncomplete (gaeKeysToNative bds keys)) w = ((idKeys, None), w1) \<and>
    length idKeys = length (filter isIncomplete (gaeKeysToNative bds keys)) \<and>
    txPutMulti client tx (fillIncomplete (gaeKeysToNative bds keys) idKeys)
      (map (mkNPLS bds) vals) w1 = (Some err, w') \<and>
    keysForNil bds (fillIncomplete (gaeKeysToNative bds keys) idKeys) err \<longrightarrow>
      PutMulti client bds keys vals cbP w =
        distribute err (putReports bds (fillIncomplete (gaeKeysToNative bds keys) idKeys))
          (\<lambda>(k, e). cbP k e) w')"
proof (intro conjI impI)
  assume "deleteCall client bds keys w = (Some err, w')"
  then show "DeleteMulti client bds keys cbD w = distribute err (map normalizeError) cbD w'"
    by (rule DeleteMulti_errors)
next
  assume "getCall client bds keys w = ((ls, Some err), w') \<and> length ls = length keys \<and>
    aggregateFits err (length keys)"
  then have a: "getCall client bds keys w = ((ls, Some err), w')"
    and b: "aggregateFits err (length ls)" by simp_all
  show "GetMulti client bds keys cbG w =
      distribute err (\<lambda>me. zip (map pmap ls) (map normalizeError me)) (\<lambda>(pm, e). cbG pm e) w'"
    by (rule GetMulti_errors [OF a b])
next
  assume a: "transaction bds = None \<and>
    clientPutMulti client (gaeKeysToNative bds keys) (map (mkNPLS bds) vals) w =
      ((ks, Some err), w') \<and> keysForNil bds ks err"
  then have "PutMulti client bds keys vals cbP w =
      idxCallbacker (Some err) (length ks) (putCallback bds cbP ks) w'"
    by (simp add: PutMulti_def Let_def)
  with a show "PutMulti client bds keys vals cbP w =
      distribute err (putReports bds ks) (\<lambda>(k, e). cbP k e) w'"
    by (simp add: putCallback_errors)
next
  let ?filled = "fillIncomplete (gaeKeysToNative bds keys) idKeys"
  assume a: "transaction bds = Some tx \<and> (\<forall>k\<in>set keys. keyToks k \<noteq> []) \<and>
    allocation client (filter isIncomplete (gaeKeysToNative bds keys)) w = ((idKeys, None), w1) \<and>
    length idKeys = length (filter isIncomplete (gaeKeysToNative bds keys)) \<and>
    txPutMulti client tx ?filled (map (mkNPLS bds) vals) w1 = (Some err, w') \<and>
    keysForNil bds ?filled err"
  then have "PutMulti client bds keys vals cbP w =
      idxCallbacker (Some err) (length keys) (putCallback bds cbP ?filled) w'"
    using PutMulti_transactional(2) [of bds tx keys client w idKeys None w1 vals cbP]
    by simp
  with a show "PutMulti client bds keys vals cbP w =
      distribute err (putReports bds ?filled) (\<lambda>(k, e). cbP k e) w'"
    by (simp add: putCallback_errors)
qed


theorem batch_operation_errors_witness:
  "DeleteMulti
     (exampleClient [] (Some (NativeMultiError [None, Some NativeErrNoSuchEntity]))
        \<lparr>itEntities = [], itFinal = NativeDone\<rparr>)
     (exampleScope None) [exampleKey 1, exampleKey 2]
     (\<lambda>e log. (Returns None, log @ [DeleteCallback e])) [] =
   (Returns None,
    [CallDeleteMulti
       [Some (NativeKey ''Kind'' 1 [] None ''ns''), Some (NativeKey ''Kind'' 2 [] None ''ns'')],
     DeleteCallback None, DeleteCallback (Some ErrNoSuchEntity)]) \<and>
   GetMulti
     (exampleClient [] (Some (NativeMultiError [None, Some NativeErrNoSuchEntity]))
        \<lparr>itEntities = [], itFinal = NativeDone\<rparr>)
     (exampleScope None) [exampleKey 1, exampleKey 2]
     (\<lambda>pm e log. (Returns None, log @ [GetCallback pm e])) [] =
   (Returns None,
    [CallGetMulti
       [Some (NativeKey ''Kind'' 1 [] None ''ns''), Some (NativeKey ''Kind'' 2 [] None ''ns'')],
     GetCallback None None, GetCallback None (Some ErrNoSuchEntity)]) \<and>
   PutMulti
     (exampleClient [] (Some (NativeMultiError [Some NativeErrInvalidKey, Some (OtherError ''too big'')]))
        \<lparr>itEntities = [], itFinal = NativeDone\<rparr>)
     (exampleScope None) [exampleKey 1, exampleKey 2] [None, None]
     (\<lambda>k e log. (Returns None, log @ [KeyCallback k e])) [] =
   (Returns None,
    [CallPutMulti
       [Some (NativeKey ''Kind'' 1 [] None ''ns''), Some (NativeKey ''Kind'' 2 [] None ''ns'')],
     KeyCallback None (Some ErrInvalidKey), KeyCallback None (Some (OtherError ''too big''))]) \<and>
   PutMulti
     (exampleClient [] (Some (NativeMultiError [None, Some NativeErrInvalidKey]))
        \<lparr>itEntities = [], itFinal = NativeDone\<rparr>)
     (exampleScope (Some 7)) [exampleKey 5, exampleKey 0] [None, None]
     (\<lambda>k e log. (Returns None, log @ [KeyCallback k e])) [] =
   (Returns None,
    [CallAllocateIDs [Some (NativeKey ''Kind'' 0 [] None ''ns'')],
     CallTxPutMulti 7
       [Some (NativeKey ''Kind'' 5 [] None ''ns''), Some (NativeKey ''Kind'' 100 [] None ''ns'')],
     KeyCallback (Some (exampleKey 5)) None, KeyCallback None (Some ErrInvalidKey)]) \<and>
   PutMulti
     (exampleClient [] (Some (OtherError ''rpc failed''))
        \<lparr>itEntities = [], itFinal = NativeDone\<rparr>)
     (exampleScope (Some 7)) [exampleKey 5, exampleKey 0] [None, None]
     (\<lambda>k e log. (Returns None, log @ [KeyCallback k e])) [] =
   (Returns (Some (OtherError ''rpc failed'')),
    [CallAllocateIDs [Some (NativeKey ''Kind'' 0 [] None ''ns'')],
     CallTxPutMulti 7
       [Some (NativeKey ''Kind'' 5 [] None ''ns''), Some (NativeKey ''Kind'' 100 [] None ''ns'')]])"
proof -
  let ?it = "\<lparr>itEntities = [], itFinal = NativeDone\<rparr>"
  let ?agg = "NativeMultiError [None, Some NativeErrNoSuchEntity]"
  let ?agg2 = "NativeMultiError [Some NativeErrInvalidKey, Some (OtherError ''too big'')]"
  let ?agg3 = "NativeMultiError [None, Some NativeErrInvalidKey]"
  let ?one = "OtherError ''rpc failed''"
  let ?keys = "[exampleKey 1, exampleKey 2]"
  let ?keys' = "[exampleKey 5, exampleKey 0]"
  let ?nks = "[Some (NativeKey ''Kind'' 1 [] None ''ns''), Some (NativeKey ''Kind'' 2 [] None ''ns'')]"
  let ?inc = "[Some (NativeKey ''Kind'' 0 [] None ''ns'')]"
  let ?ids = "[Some (NativeKey ''Kind'' 100 [] None ''ns'')]"
  let ?filled = "[Some (NativeKey ''Kind'' 5 [] None ''ns''), Some (NativeKey ''Kind'' 100 [] None ''ns'')]"
  let ?vals = "[None, None] :: PropertyMap list"
  let ?cbD = "\<lambda>e (log::event list). (Returns (None::error option), log @ [DeleteCallback e])"
  let ?cbG = "\<lambda>pm e (log::event list). (Returns (None::error option), log @ [GetCallback pm e])"
  let ?cbP = "\<lambda>k e (log::event list). (Returns (None::error option), log @ [KeyCallback k e])"
  have nks: "gaeKeysToNative (exampleScope tx) ?keys = ?nks"
    "gaeKeysToNative (exampleScope tx) ?keys' =
       [Some (NativeKey ''Kind'' 5 [] None ''ns''), Some (NativeKey ''Kind'' 0 [] None ''ns'')]" for tx
    by (simp_all add: gaeKeysToNative_def gaeKeyToNative_def NewKey_def exampleKey_def
        exampleScope_def)
  have u: "[0..<2] = [0, Suc 0]" by (simp add: upt_conv_Cons)
  have tr: "transaction (exampleScope tx) = tx" for tx by (simp add: exampleScope_def)
  have d: "deleteCall (exampleClient [] (Some ?agg) ?it) (exampleScope None) ?keys [] =
      (Some ?agg, [CallDeleteMulti ?nks])"
    by (simp add: deleteCall_def nks tr exampleClient_def)
  have g: "getCall (exampleClient [] (Some ?agg) ?it) (exampleScope None) ?keys [] =
      (([mkNPLS (exampleScope None) None, mkNPLS (exampleScope None) None], Some ?agg),
       [CallGetMulti ?nks]) \<and>
      length [mkNPLS (exampleScope None) None, mkNPLS (exampleScope None) None] = length ?keys \<and>
      aggregateFits ?agg (length ?keys)"
    by (simp add: getCall_def nks tr aggregateFits_def exampleClient_def)
  have p: "transaction (exampleScope None) = None \<and>
      clientPutMulti (exampleClient [] (Some ?agg2) ?it) (gaeKeysToNative (exampleScope None) ?keys)
        (map (mkNPLS (exampleScope None)) ?vals) [] = (([], Some ?agg2), [CallPutMulti ?nks]) \<and>
      keysForNil (exampleScope None) [] ?agg2"
    by (simp add: nks tr keysForNil_def u exampleClient_def)
  have inc: "filter isIncomplete (gaeKeysToNative (exampleScope (Some 7)) ?keys') = ?inc"
    and filled: "fillIncomplete (gaeKeysToNative (exampleScope (Some 7)) ?keys') ?ids = ?filled"
    unfolding nks by (simp_all add: isIncomplete_def nkIncomplete_def)
  have kf: "keysForNil (exampleScope (Some 7)) ?filled ?agg3"
    "keysForNil (exampleScope (Some 7)) ?filled ?one"
    by (simp_all add: keysForNil_def u keyAt_def nativeKeyToGAE_def)
  have t: "transaction (exampleScope (Some 7)) = Some 7 \<and>
      (\<forall>k\<in>set ?keys'. keyToks k \<noteq> []) \<and>
      allocation (exampleClient [] (Some e) ?it)
        (filter isIncomplete (gaeKeysToNative (exampleScope (Some 7)) ?keys')) [] =
        ((?ids, None), [CallAllocateIDs ?inc]) \<and>
      length ?ids = length (filter isIncomplete (gaeKeysToNative (exampleScope (Some 7)) ?keys')) \<and>
      txPutMulti (exampleClient [] (Some e) ?it) 7
        (fillIncomplete (gaeKeysToNative (exampleScope (Some 7)) ?keys') ?ids)
        (map (mkNPLS (exampleScope (Some 7))) ?vals) [CallAllocateIDs ?inc] =
        (Some e, [CallAllocateIDs ?inc, CallTxPutMulti 7 ?filled])" for e
    unfolding inc filled
    by (simp add: tr exampleKey_def allocation_def exampleClient_def)
  have keys: "keyAt (exampleScope (Some 7)) ?filled 0 = Some (exampleKey 5)"
    by (simp add: keyAt_def nativeKeyToGAE_def NewKeyToks_def reverseToks_rev exampleKey_def
        exampleScope_def)
  from batch_operation_errors [where cbD = ?cbD, THEN conjunct1, THEN mp, OF d]
  have 1: "DeleteMulti (exampleClient [] (Some ?agg) ?it) (exampleScope None) ?keys ?cbD [] =
      (Returns None, [CallDeleteMulti ?nks, DeleteCallback None, DeleteCallback (Some ErrNoSuchEntity)])"
    by (simp add: distribute_def)
  from batch_operation_errors [where cbG = ?cbG, THEN conjunct2, THEN conjunct1, THEN mp, OF g]
  have 2: "GetMulti (exampleClient [] (Some ?agg) ?it) (exampleScope None) ?keys ?cbG [] =
      (Returns None, [CallGetMulti ?nks, GetCallback None None, GetCallback None (Some ErrNoSuchEntity)])"
    by (simp add: distribute_def mkNPLS_def clonePropertyMap_def)
  from batch_operation_errors [where cbP = ?cbP, THEN conjunct2, THEN conjunct2, THEN conjunct1,
      THEN mp, OF p]
  have 3: "PutMulti (exampleClient [] (Some ?agg2) ?it) (exampleScope None) ?keys ?vals ?cbP [] =
      (Returns None, [CallPutMulti ?nks, KeyCallback None (Some ErrInvalidKey),
        KeyCallback None (Some (OtherError ''too big''))])"
    by (simp add: distribute_def putReports_def u)
  from batch_operation_errors [where cbP = ?cbP, THEN conjunct2, THEN conjunct2, THEN conjunct2,
      THEN mp, OF conjI [OF conjunct1 [OF t [of ?agg3]]
        conjI [OF conjunct1 [OF conjunct2 [OF t [of ?agg3]]]
          conjI [OF conjunct1 [OF conjunct2 [OF conjunct2 [OF t [of ?agg3]]]]
            conjI [OF conjunct1 [OF conjunct2 [OF conjunct2 [OF conjunct2 [OF t [of ?agg3]]]]]
              conjI [OF conjunct2 [OF conjunct2 [OF conjunct2 [OF conjunct2 [OF t [of ?agg3]]]]]
                kf(1) [folded filled]]]]]]]
  have 4: "PutMulti (exampleClient [] (Some ?agg3) ?it) (exampleScope (Some 7)) ?keys' ?vals ?cbP [] =
      (Returns None, [CallAllocateIDs ?inc, CallTxPutMulti 7 ?filled,
        KeyCallback (Some (exampleKey 5)) None, KeyCallback None (Some ErrInvalidKey)])"
    unfolding filled by (simp add: distribute_def putReports_def u keys)
  from batch_operation_errors [where cbP = ?cbP, THEN conjunct2, THEN conjunct2, THEN conjunct2,
      THEN mp, OF conjI [OF conjunct1 [OF t [of ?one]]
        conjI [OF conjunct1 [OF conjunct2 [OF t [of ?one]]]
          conjI [OF conjunct1 [OF conjunct2 [OF conjunct2 [OF t [of ?one]]]]
            conjI [OF conjunct1 [OF conjunct2 [OF conjunct2 [OF conjunct2 [OF t [of ?one]]]]]
              conjI [OF conjunct2 [OF conjunct2 [OF conjunct2 [OF conjunct2 [OF t [of ?one]]]]]
                kf(2) [folded filled]]]]]]]
  have 5: "PutMulti (exampleClient [] (Some ?one) ?it) (exampleScope (Some 7)) ?keys' ?vals ?cbP [] =
      (Returns (Some ?one), [CallAllocateIDs ?inc, CallTxPutMulti 7 ?filled])"
    unfolding filled by (simp add: distribute_def)
  from 1 2 3 4 5 show ?thesis by (intro conjI)
qed

text \<open>
  Outside a transaction the keys are those the backend returned with the error. When it
  returned none and the aggregate has an entry without error, the index into the keys
  is out of range: the call panics before the callback is run.
\<close>

lemma PutMulti_aggregate_without_keys:
  "PutMulti
     (exampleClient [] (Some (NativeMultiError [None, Some NativeErrInvalidKey]))
        \<lparr>itEntities = [], itFinal = NativeDone\<rparr>)
     (exampleScope None) [exampleKey 1, exampleKey 2] [None, None]
     (\<lambda>k e log. (Returns None, log @ [KeyCallback k e])) [] =
   (Panics ''index out of range'',
    [CallPutMulti
       [Some (NativeKey ''Kind'' 1 [] None ''ns''), Some (NativeKey ''Kind'' 2 [] None ''ns'')]])"
  by (simp add: PutMulti_def gaeKeysToNative_def gaeKeyToNative_def NewKey_def exampleKey_def
      exampleScope_def exampleClient_def idxCallbacker_def putCallback_def)

end
